theory Spec2Isabelle
  imports Complex_Main "HOL-Library.Multiset"
begin

section \<open>Python values and exceptions\<close>

text \<open>
  Floating-point numbers are idealised as \<^typ>\<open>real\<close>. A value read from a parameter
  is \<open>None\<close>, a number, or a one-dimensional array (a Python list of numbers is
  represented by the same constructor). Exceptions are values of \<open>pyexn\<close>; a function
  that may raise returns \<open>pyexn + 'a\<close> with \<open>Inl\<close> for the raised exception.
\<close>

datatype pyexn =
    TypeError | ValueError | IndexError | KeyError | AgentError string | EmptySearchSpace

datatype pyval = PNone | PNum real | PArr "real list"

text \<open>
  Subtraction as Python and numpy evaluate \<open>a - b\<close>: \<open>None\<close> on either side is a
  \<open>TypeError\<close>; a number and an array broadcast; two arrays subtract element-wise when
  their lengths agree or one of them has length one, and raise \<open>ValueError\<close> otherwise.
\<close>

fun py_sub :: "pyval \<Rightarrow> pyval \<Rightarrow> pyexn + pyval" where
  "py_sub PNone _ = Inl TypeError"
| "py_sub _ PNone = Inl TypeError"
| "py_sub (PNum a) (PNum b) = Inr (PNum (a - b))"
| "py_sub (PArr xs) (PNum b) = Inr (PArr (map (\<lambda>x. x - b) xs))"
| "py_sub (PNum a) (PArr ys) = Inr (PArr (map (\<lambda>y. a - y) ys))"
| "py_sub (PArr xs) (PArr ys) =
     (if length xs = length ys then Inr (PArr (map2 (-) xs ys))
      else if length ys = 1 then Inr (PArr (map (\<lambda>x. x - hd ys) xs))
      else if length xs = 1 then Inr (PArr (map (\<lambda>y. hd xs - y) ys))
      else Inl ValueError)"

section \<open>ControlMechanism: costs, outcome and net outcome\<close>

text \<open>
  \<open>controlmechanism.py\<close>. A ControlSignal is seen through the two things the getters read:
  its \<open>value\<close> in a context, and its \<open>compute_costs\<close> method (absent on a GatingSignal,
  hence the option). A context is identified by its execution id.
\<close>

type_synonym execution_id = string

record control_signal =
  cs_value :: "execution_id \<Rightarrow> pyval"
  compute_costs :: "(pyval \<Rightarrow> execution_id \<Rightarrow> pyexn + real) option"

record control_mechanism =
  variable :: "execution_id \<Rightarrow> real list list option"
  control_signals :: "control_signal list"
  combine_costs :: "real list option \<Rightarrow> pyexn + pyval"
  compute_net_outcome :: "pyval \<Rightarrow> pyval \<Rightarrow> pyexn + pyval"

text \<open>
  \<open>np.sum\<close>, the default of \<open>combine_costs\<close>: the sum of a list of costs. Applied to
  \<open>None\<close> (the costs getter's answer after a \<open>TypeError\<close>) numpy reduces a
  zero-dimensional object array and hands \<open>None\<close> back.
\<close>

fun np_sum :: "real list option \<Rightarrow> pyexn + pyval" where
  "np_sum None = Inr PNone"
| "np_sum (Some cs) = Inr (PNum (sum_list cs))"

text \<open>The default of \<open>compute_net_outcome\<close>: \<open>lambda outcome, cost: outcome - cost\<close>.\<close>

definition default_compute_net_outcome :: "pyval \<Rightarrow> pyval \<Rightarrow> pyexn + pyval" where
  "default_compute_net_outcome outcome cost = py_sub outcome cost"

text \<open>
  The list comprehension of \<open>_control_mechanism_costs_getter\<close>: the signals without a
  \<open>compute_costs\<close> attribute are skipped, the first exception ends the comprehension.
\<close>

fun collect_costs :: "control_signal list \<Rightarrow> execution_id \<Rightarrow> pyexn + real list" where
  "collect_costs [] ctx = Inr []"
| "collect_costs (c # cs) ctx =
     (case compute_costs c of
        None \<Rightarrow> collect_costs cs ctx
      | Some f \<Rightarrow>
          (case f (cs_value c ctx) ctx of
             Inl e \<Rightarrow> Inl e
           | Inr v \<Rightarrow>
               (case collect_costs cs ctx of
                  Inl e \<Rightarrow> Inl e
                | Inr vs \<Rightarrow> Inr (v # vs))))"

definition control_mechanism_costs_getter ::
    "control_mechanism \<Rightarrow> execution_id \<Rightarrow> pyexn + real list option" where
  "control_mechanism_costs_getter m ctx =
     (case collect_costs (control_signals m) ctx of
        Inr costs \<Rightarrow> Inr (Some costs)
      | Inl TypeError \<Rightarrow> Inr None
      | Inl e \<Rightarrow> Inl e)"

text \<open>
  \<open>_outcome_getter\<close>: item 0 of the variable; subscripting \<open>None\<close> is the \<open>TypeError\<close>
  that is caught, subscripting an empty array is an \<open>IndexError\<close> that is not.
\<close>

definition outcome_getter :: "control_mechanism \<Rightarrow> execution_id \<Rightarrow> pyexn + pyval" where
  "outcome_getter m ctx =
     (case variable m ctx of
        None \<Rightarrow> Inr PNone
      | Some [] \<Rightarrow> Inl IndexError
      | Some (row # _) \<Rightarrow> Inr (PArr row))"

text \<open>
  The body of the \<open>try\<close> of \<open>_net_outcome_getter\<close>, in Python's evaluation order: the
  outcome, then the costs, then \<open>combine_costs\<close>, then \<open>compute_net_outcome\<close>.
\<close>

definition net_outcome_try :: "control_mechanism \<Rightarrow> execution_id \<Rightarrow> pyexn + pyval" where
  "net_outcome_try m ctx =
     (case outcome_getter m ctx of
        Inl e \<Rightarrow> Inl e
      | Inr outcome \<Rightarrow>
          (case control_mechanism_costs_getter m ctx of
             Inl e \<Rightarrow> Inl e
           | Inr costs \<Rightarrow>
               (case combine_costs m costs of
                  Inl e \<Rightarrow> Inl e
                | Inr cost \<Rightarrow> compute_net_outcome m outcome cost)))"

text \<open>\<open>_net_outcome_getter\<close>: \<open>except TypeError: return [0]\<close>; other exceptions pass.\<close>

definition net_outcome_getter :: "control_mechanism \<Rightarrow> execution_id \<Rightarrow> pyexn + pyval" where
  "net_outcome_getter m ctx =
     (case net_outcome_try m ctx of
        Inl TypeError \<Rightarrow> Inr (PArr [0])
      | r \<Rightarrow> r)"

text \<open>
  The constructor's defaults (\<open>combine_costs=np.sum\<close>,
  \<open>compute_net_outcome=lambda outcome, cost: outcome - cost\<close>), for a mechanism with the
  given variable and control signals.
\<close>

definition ControlMechanism_init ::
    "(execution_id \<Rightarrow> real list list option) \<Rightarrow> control_signal list \<Rightarrow> control_mechanism" where
  "ControlMechanism_init var sigs =
     \<lparr>variable = var, control_signals = sigs, combine_costs = np_sum,
      compute_net_outcome = default_compute_net_outcome\<rparr>"

section \<open>Net outcome: the default and its replacement\<close>



text \<open>
  A mechanism whose outcome is \<open>[5]\<close> and whose single control signal costs \<open>2\<close>: the
  default reads \<open>[3]\<close>, and after replacing the function by the product of outcome and
  cost the getter reads \<open>[10]\<close>.
\<close>

definition example_signal :: control_signal where
  "example_signal = \<lparr>cs_value = (\<lambda>_. PNum 1), compute_costs = Some (\<lambda>_ _. Inr 2)\<rparr>"




section \<open>Net outcome before outcome or costs are set\<close>

lemma py_sub_None:
  "py_sub PNone v = Inl TypeError" "py_sub v PNone = Inl TypeError"
  by (cases v; simp)+

text \<open>
  C10. Reading \<open>net_outcome\<close> returns \<open>[0]\<close> whenever combining outcome and costs raises
  a \<open>TypeError\<close>; with the default functions this is what happens when the variable (hence
  the outcome) is still \<open>None\<close>, and when the costs are \<open>None\<close> because a signal's cost
  computation raised a \<open>TypeError\<close>.
\<close>

theorem net_outcome_unset_reads_zero:
  "(net_outcome_try m ctx = Inl TypeError \<longrightarrow> net_outcome_getter m ctx = Inr (PArr [0]))
   \<and> (variable (ControlMechanism_init var sigs) ctx = None
        \<and> control_mechanism_costs_getter (ControlMechanism_init var sigs) ctx = Inr costs
      \<longrightarrow> net_outcome_getter (ControlMechanism_init var sigs) ctx = Inr (PArr [0]))
   \<and> (outcome_getter (ControlMechanism_init var sigs) ctx = Inr ov
        \<and> control_mechanism_costs_getter (ControlMechanism_init var sigs) ctx = Inr None
      \<longrightarrow> net_outcome_getter (ControlMechanism_init var sigs) ctx = Inr (PArr [0]))"
proof -
  let ?m = "ControlMechanism_init var sigs"
  have defaults: "combine_costs ?m = np_sum" "compute_net_outcome ?m = default_compute_net_outcome"
    by (simp_all add: ControlMechanism_init_def)
  have generic: "net_outcome_getter m' ctx = Inr (PArr [0])"
    if "net_outcome_try m' ctx = Inl TypeError" for m'
    using that by (simp add: net_outcome_getter_def)
  have no_outcome: "net_outcome_try ?m ctx = Inl TypeError"
    if "variable ?m ctx = None" "control_mechanism_costs_getter ?m ctx = Inr costs"
  proof -
    have "outcome_getter ?m ctx = Inr PNone"
      using that(1) by (simp add: outcome_getter_def)
    moreover obtain cv where "np_sum costs = Inr cv"
      by (cases costs) simp_all
    ultimately show ?thesis
      using that(2) defaults
      by (simp add: net_outcome_try_def default_compute_net_outcome_def py_sub_None)
  qed
  have no_costs: "net_outcome_try ?m ctx = Inl TypeError"
    if "outcome_getter ?m ctx = Inr ov" "control_mechanism_costs_getter ?m ctx = Inr None"
    using that defaults
    by (simp add: net_outcome_try_def default_compute_net_outcome_def py_sub_None)
  from generic no_outcome no_costs show ?thesis by blast
qed

text \<open>
  A fresh mechanism whose variable is still \<open>None\<close>, and one whose signal's value is still
  \<open>None\<close> so that its cost computation raises a \<open>TypeError\<close>.
\<close>

definition unset_signal :: control_signal where
  "unset_signal =
     \<lparr>cs_value = (\<lambda>_. PNone),
      compute_costs = Some (\<lambda>v _. case v of PNum x \<Rightarrow> Inr (x * x) | _ \<Rightarrow> Inl TypeError)\<rparr>"

theorem net_outcome_unset_reads_zero_witness:
  "net_outcome_getter (ControlMechanism_init (\<lambda>_. None) [example_signal]) ''eid''
     = Inr (PArr [0])
   \<and> control_mechanism_costs_getter (ControlMechanism_init (\<lambda>_. Some [[5]]) [unset_signal]) ''eid''
     = Inr None
   \<and> net_outcome_getter (ControlMechanism_init (\<lambda>_. Some [[5]]) [unset_signal]) ''eid''
     = Inr (PArr [0])"
proof -
  let ?a = "ControlMechanism_init (\<lambda>_. None) [example_signal]"
  let ?b = "ControlMechanism_init (\<lambda>_. Some [[5]]) [unset_signal]"
  have a: "variable ?a ''eid'' = None"
    "control_mechanism_costs_getter ?a ''eid'' = Inr (Some [2])"
    by (simp_all add: ControlMechanism_init_def example_signal_def
        control_mechanism_costs_getter_def)
  have b: "outcome_getter ?b ''eid'' = Inr (PArr [5])"
    "control_mechanism_costs_getter ?b ''eid'' = Inr None"
    by (simp_all add: ControlMechanism_init_def unset_signal_def outcome_getter_def
        control_mechanism_costs_getter_def)
  from a b
    net_outcome_unset_reads_zero
      [of ?a "''eid''" "\<lambda>_. None" "[example_signal]" "Some [2]" "PArr [5]"]
    net_outcome_unset_reads_zero
      [of ?b "''eid''" "\<lambda>_. Some [[5]]" "[unset_signal]" "None" "PArr [5]"]
  show ?thesis by simp
qed

section \<open>Simulation ids\<close>

text \<open>
  \<open>get_next_sim_id\<close>. The dictionary \<open>_sim_counts\<close> maps an execution id to the number
  of the next simulation; it is created empty by the constructor and written by this
  method only, so its values are natural numbers. The body runs under
  \<open>_sim_count_lock\<close>, so a call is one atomic step of the sequential model. The constant
  \<open>EID_SIMULATION\<close> is imported from a module outside these sources and is a parameter.
  \<open>str_nat\<close> is the decimal rendering that \<open>str.format\<close> gives a non-negative integer.
\<close>

definition digit_char :: "nat \<Rightarrow> char" where
  "digit_char d = ''0123456789'' ! d"

function str_nat :: "nat \<Rightarrow> string" where
  "str_nat n = (if n < 10 then [digit_char n] else str_nat (n div 10) @ [digit_char (n mod 10)])"
  by pat_completeness auto
termination
  by (relation "measure id") auto

declare str_nat.simps [simp del]

definition format_sim_id :: "string \<Rightarrow> execution_id \<Rightarrow> nat \<Rightarrow> string" where
  "format_sim_id EID_SIMULATION eid sim_num = eid @ EID_SIMULATION @ ''-'' @ str_nat sim_num"

definition get_next_sim_id ::
    "string \<Rightarrow> (execution_id \<rightharpoonup> nat) \<Rightarrow> execution_id \<Rightarrow> string \<times> (execution_id \<rightharpoonup> nat)" where
  "get_next_sim_id EID_SIMULATION sim_counts eid =
     (case sim_counts eid of
        Some sim_num \<Rightarrow> (format_sim_id EID_SIMULATION eid sim_num, sim_counts(eid \<mapsto> sim_num + 1))
      | None \<Rightarrow> (format_sim_id EID_SIMULATION eid 0, sim_counts(eid \<mapsto> 1)))"

text \<open>A sequence of calls, one per execution id of the list, returning the ids in order.\<close>

fun sim_id_calls :: "string \<Rightarrow> (execution_id \<rightharpoonup> nat) \<Rightarrow> execution_id list \<Rightarrow> string list" where
  "sim_id_calls S c [] = []"
| "sim_id_calls S c (e # es) =
     (case get_next_sim_id S c e of (sid, c') \<Rightarrow> sid # sim_id_calls S c' es)"

text \<open>The number the next call for \<open>e\<close> embeds: the \<open>KeyError\<close> branch starts at 0.\<close>

definition next_num :: "(execution_id \<rightharpoonup> nat) \<Rightarrow> execution_id \<Rightarrow> nat" where
  "next_num c e = (case c e of None \<Rightarrow> 0 | Some n \<Rightarrow> n)"

text \<open>Reading a decimal string back, to show that the rendering is injective.\<close>

fun digits_value :: "string \<Rightarrow> nat" where
  "digits_value [] = 0"
| "digits_value (ch # cs) = (of_char ch - 48) * 10 ^ length cs + digits_value cs"

lemma digits_value_append: "digits_value (xs @ [ch]) = digits_value xs * 10 + (of_char ch - 48)"
  by (induction xs) (simp_all add: algebra_simps)

lemma of_digit_char: "d < 10 \<Longrightarrow> of_char (digit_char d) - 48 = d"
proof -
  assume "d < 10"
  then have "d \<in> set [0 ..< 10]" by simp
  then have "d \<in> {0, 1, 2, 3, 4, 5, 6, 7, 8, 9}"
    unfolding upt_conv_Cons_Cons by (simp add: upt_rec numeral_nat)
  then show ?thesis
    unfolding digit_char_def by (elim insertE emptyE) simp_all
qed

lemma digits_value_str_nat: "digits_value (str_nat n) = n"
proof (induction n rule: str_nat.induct)
  case (1 n)
  show ?case
  proof (cases "n < 10")
    case True
    then show ?thesis by (subst str_nat.simps) (simp add: of_digit_char)
  next
    case False
    with 1 show ?thesis
      by (subst str_nat.simps) (simp add: digits_value_append of_digit_char)
  qed
qed

lemma str_nat_inj: "str_nat a = str_nat b \<Longrightarrow> a = b"
  by (metis digits_value_str_nat)

lemma format_sim_id_inj: "format_sim_id S e a = format_sim_id S e b \<Longrightarrow> a = b"
  by (simp add: format_sim_id_def str_nat_inj)

lemma get_next_sim_id_eq:
  "get_next_sim_id S c e = (format_sim_id S e (next_num c e), c(e \<mapsto> next_num c e + 1))"
  by (simp add: get_next_sim_id_def next_num_def split: option.splits)

lemma next_num_upd: "next_num (c(e \<mapsto> n)) x = (if x = e then n else next_num c x)"
  by (simp add: next_num_def)

lemma sim_id_calls_length: "length (sim_id_calls S c es) = length es"
  by (induction es arbitrary: c) (simp_all add: get_next_sim_id_eq)

lemma sim_id_calls_nth:
  "j < length es \<Longrightarrow>
   sim_id_calls S c es ! j
     = format_sim_id S (es ! j) (next_num c (es ! j) + count_list (take j es) (es ! j))"
proof (induction es arbitrary: c j)
  case Nil
  then show ?case by simp
next
  case (Cons e es)
  show ?case
  proof (cases j)
    case 0
    then show ?thesis by (simp add: get_next_sim_id_eq)
  next
    case (Suc k)
    with Cons.prems have "k < length es" by simp
    let ?c = "c(e \<mapsto> next_num c e + 1)"
    have step: "sim_id_calls S c (e # es) ! Suc k = sim_id_calls S ?c es ! k"
      by (simp add: get_next_sim_id_eq)
    have num: "next_num ?c (es ! k) + count_list (take k es) (es ! k)
          = next_num c (es ! k) + count_list (take (Suc k) (e # es)) (es ! k)"
      by (simp add: next_num_upd)
    have "sim_id_calls S ?c es ! k
          = format_sim_id S (es ! k) (next_num ?c (es ! k) + count_list (take k es) (es ! k))"
      by (rule Cons.IH [OF \<open>k < length es\<close>])
    with step num Suc show ?thesis by simp
  qed
qed

lemma count_list_take_mono:
  "k \<le> j \<Longrightarrow> count_list (take k es) e \<le> count_list (take j es) e"
proof -
  assume "k \<le> j"
  then have "take j es = take k es @ take (j - k) (drop k es)"
    by (metis le_add_diff_inverse take_add)
  then show ?thesis by simp
qed

lemma count_list_take_less:
  assumes "i < j" "j \<le> length es" "es ! i = e"
  shows "count_list (take i es) e < count_list (take j es) e"
proof -
  have "i < length es" using assms by simp
  then have "take (Suc i) es = take i es @ [es ! i]"
    by (rule take_Suc_conv_app_nth)
  then have "count_list (take (Suc i) es) e = count_list (take i es) e + 1"
    using assms(3) by simp
  moreover have "count_list (take (Suc i) es) e \<le> count_list (take j es) e"
    using assms(1) by (intro count_list_take_mono) simp
  ultimately show ?thesis by simp
qed

text \<open>
  C9. In any sequence of calls, from any state of the counters, two calls for the same
  execution id return different simulation ids; and every call leaves the counter of its
  execution id one above the number it embedded in the id it returned.
\<close>

theorem sim_ids_distinct:
  assumes "i < j" "j < length es" "es ! i = es ! j"
  shows "sim_id_calls S c es ! i \<noteq> sim_id_calls S c es ! j
         \<and> snd (get_next_sim_id S c e) e = Some (next_num c e + 1)"
proof -
  let ?e = "es ! j"
  have "count_list (take i es) ?e < count_list (take j es) ?e"
    using assms by (intro count_list_take_less) simp_all
  then have "next_num c ?e + count_list (take i es) ?e \<noteq> next_num c ?e + count_list (take j es) ?e"
    by simp
  then have "format_sim_id S ?e (next_num c ?e + count_list (take i es) ?e)
           \<noteq> format_sim_id S ?e (next_num c ?e + count_list (take j es) ?e)"
    using format_sim_id_inj by blast
  moreover have "i < length es" using assms by simp
  ultimately show ?thesis
    using assms sim_id_calls_nth [of i es S c] sim_id_calls_nth [of j es S c]
    by (simp add: get_next_sim_id_eq)
qed

text \<open>Four calls from the empty dictionary, three of them for the execution id \<open>a\<close>.\<close>

lemma str_nat_small:
  "str_nat 0 = ''0''" "str_nat (Suc 0) = ''1''" "str_nat (Suc (Suc 0)) = ''2''"
  by code_simp+

lemma example_sim_ids:
  "sim_id_calls ''-sim'' Map.empty [''a'', ''b'', ''a'', ''a'']
     = [''a-sim-0'', ''b-sim-0'', ''a-sim-1'', ''a-sim-2'']"
  by (simp add: get_next_sim_id_def format_sim_id_def str_nat_small)

theorem sim_ids_distinct_witness:
  "sim_id_calls ''-sim'' Map.empty [''a'', ''b'', ''a'', ''a'']
     = [''a-sim-0'', ''b-sim-0'', ''a-sim-1'', ''a-sim-2'']
   \<and> sim_id_calls ''-sim'' Map.empty [''a'', ''b'', ''a'', ''a''] ! 0
     \<noteq> sim_id_calls ''-sim'' Map.empty [''a'', ''b'', ''a'', ''a''] ! 2
   \<and> snd (get_next_sim_id ''-sim'' Map.empty ''a'') ''a'' = Some 1"
  using sim_ids_distinct [of 0 2 "[''a'', ''b'', ''a'', ''a'']" "''-sim''" Map.empty "''a''"]
  by (simp add: example_sim_ids next_num_def del: sim_id_calls.simps)

section \<open>The default ObjectiveMechanism\<close>

text \<open>
  \<open>ControlMechanism._instantiate_objective_mechanism\<close>. OutputStates are named by
  strings. The \<open>objective_mechanism\<close> argument is \<open>None\<close>, \<open>True\<close>, a list of OutputStates
  (the legacy form) or an ObjectiveMechanism; \<open>monitor_for_control\<close> is \<open>None\<close>, a single
  item or a list. The classes \<open>ObjectiveMechanism\<close> and \<open>LinearCombination\<close> live outside
  these sources: the constructor is the record below, guarded by a validity check that
  is a parameter (the constructor raises \<open>ObjectiveMechanismError\<close> or \<open>FunctionError\<close>
  where the check fails), and \<open>add_to_monitor\<close> appends. The model ends where the role
  is assigned; the lines after it create the projection to the ControlMechanism and do
  not touch the function.
\<close>

datatype operation = SUMMATION | PRODUCT

datatype om_function = LinearCombination operation | UserFunction "real list list \<Rightarrow> real list"

datatype role = CONTROL

record objective_mechanism =
  monitor :: "string list"
  om_function :: om_function
  om_name :: string
  om_role :: "role option"

datatype objective_spec =
    ObjectiveNone
  | ObjectiveTrue
  | ObjectiveList "string list"
  | ObjectiveInstance objective_mechanism

datatype monitor_spec = MonitorNone | MonitorItem string | MonitorList "string list"

datatype om_error = ObjectiveMechanismError

record controller_spec =
  name :: string
  system_monitored :: "string list option"
  monitor_for_control :: monitor_spec
  objective :: objective_spec

definition ObjectiveMechanism_init ::
    "(string list \<Rightarrow> bool) \<Rightarrow> string list \<Rightarrow> om_function \<Rightarrow> string
      \<Rightarrow> om_error + objective_mechanism" where
  "ObjectiveMechanism_init monitor_ok mon f nm =
     (if monitor_ok mon
      then Inr \<lparr>monitor = mon, om_function = f, om_name = nm, om_role = None\<rparr>
      else Inl ObjectiveMechanismError)"

definition add_to_monitor :: "string list \<Rightarrow> objective_mechanism \<Rightarrow> objective_mechanism" where
  "add_to_monitor specs om = om\<lparr>monitor := monitor om @ specs\<rparr>"

text \<open>\<open>self.monitor_for_control or []\<close>, wrapped in a list when it is not one.\<close>

definition monitor_list :: "monitor_spec \<Rightarrow> string list" where
  "monitor_list ms =
     (case ms of
        MonitorNone \<Rightarrow> []
      | MonitorItem x \<Rightarrow> [x]
      | MonitorList xs \<Rightarrow> xs)"

text \<open>The loop that adds the items not yet in \<open>monitored_output_states\<close>.\<close>

definition add_unmonitored :: "string list \<Rightarrow> string list \<Rightarrow> string list" where
  "add_unmonitored items monitored =
     fold (\<lambda>item acc. if item \<in> set acc then acc else acc @ [item]) items monitored"

definition instantiate_objective_mechanism ::
    "(string list \<Rightarrow> bool) \<Rightarrow> controller_spec \<Rightarrow> om_error + controller_spec" where
  "instantiate_objective_mechanism monitor_ok c =
     (let monitored0 = (case system_monitored c of None \<Rightarrow> [] | Some ms \<Rightarrow> ms);
          mfc0 = monitor_list (monitor_for_control c);
          mfc = (case objective c of ObjectiveList xs \<Rightarrow> mfc0 @ xs | _ \<Rightarrow> mfc0);
          monitored = add_unmonitored mfc monitored0
      in case objective c of
           ObjectiveInstance om \<Rightarrow>
             Inr (c\<lparr>monitor_for_control := MonitorList mfc,
                    objective := ObjectiveInstance
                      ((if monitored \<noteq> [] then add_to_monitor monitored om else om)
                         \<lparr>om_role := Some CONTROL\<rparr>)\<rparr>)
         | _ \<Rightarrow>
             (case ObjectiveMechanism_init monitor_ok monitored (LinearCombination PRODUCT)
                     (name c @ ''_ObjectiveMechanism'') of
                Inl e \<Rightarrow> Inl ObjectiveMechanismError
              | Inr om \<Rightarrow>
                  Inr (c\<lparr>monitor_for_control := MonitorList mfc,
                         objective := ObjectiveInstance (om\<lparr>om_role := Some CONTROL\<rparr>)\<rparr>)))"

text \<open>
  Modelled from the spec: what the function of an ObjectiveMechanism computes from the
  monitored vectors (the class \<open>LinearCombination\<close> is not among the sources). The spec's
  aggregator is the element-wise product of the monitored vectors, the alternative the
  element-wise sum; weights and exponents are left at their neutral defaults.
\<close>

fun om_apply :: "om_function \<Rightarrow> real list list \<Rightarrow> real list" where
  "om_apply (LinearCombination PRODUCT) vs = map prod_list (transpose vs)"
| "om_apply (LinearCombination SUMMATION) vs = map sum_list (transpose vs)"
| "om_apply (UserFunction f) vs = f vs"

definition is_objective_instance :: "objective_spec \<Rightarrow> bool" where
  "is_objective_instance s = (case s of ObjectiveInstance _ \<Rightarrow> True | _ \<Rightarrow> False)"

text \<open>
  C7. When the \<open>objective_mechanism\<close> argument is not an ObjectiveMechanism of the
  caller's, the ObjectiveMechanism that is created has the function
  \<open>LinearCombination(operation=PRODUCT)\<close>, which is not the sum and computes the
  element-wise product of the monitored vectors; an ObjectiveMechanism supplied by the
  caller keeps the function it came with.
\<close>

theorem default_objective_is_product:
  "(\<not> is_objective_instance (objective c)
      \<and> instantiate_objective_mechanism monitor_ok c = Inr c'
    \<longrightarrow> (\<exists>om. objective c' = ObjectiveInstance om
            \<and> om_function om = LinearCombination PRODUCT
            \<and> om_function om \<noteq> LinearCombination SUMMATION
            \<and> om_apply (om_function om) vs = map prod_list (transpose vs)))
   \<and> (objective c = ObjectiveInstance supplied
      \<longrightarrow> (\<exists>c'' om. instantiate_objective_mechanism monitor_ok c = Inr c''
            \<and> objective c'' = ObjectiveInstance om
            \<and> om_function om = om_function supplied))"
proof -
  have created: "\<exists>om. objective c' = ObjectiveInstance om
            \<and> om_function om = LinearCombination PRODUCT
            \<and> om_function om \<noteq> LinearCombination SUMMATION
            \<and> om_apply (om_function om) vs = map prod_list (transpose vs)"
    if "\<not> is_objective_instance (objective c)"
      "instantiate_objective_mechanism monitor_ok c = Inr c'"
    using that
    by (cases "objective c")
      (auto simp: instantiate_objective_mechanism_def ObjectiveMechanism_init_def
        is_objective_instance_def Let_def split: if_splits)
  have kept: "\<exists>c'' om. instantiate_objective_mechanism monitor_ok c = Inr c''
            \<and> objective c'' = ObjectiveInstance om
            \<and> om_function om = om_function supplied"
    if "objective c = ObjectiveInstance supplied"
    using that
    by (simp add: instantiate_objective_mechanism_def Let_def add_to_monitor_def)
  from created kept show ?thesis by blast
qed

text \<open>
  A ControlMechanism asked for its default ObjectiveMechanism (\<open>objective_mechanism=True\<close>)
  over two monitored states: the monitored vectors \<open>[2, 3]\<close> and \<open>[4, 5]\<close> are combined to
  \<open>[8, 15]\<close>, not to the sum \<open>[6, 8]\<close>.
\<close>

definition example_controller :: controller_spec where
  "example_controller =
     \<lparr>name = ''ctl'', system_monitored = None,
      monitor_for_control = MonitorList [''reward'', ''accuracy''],
      objective = ObjectiveTrue\<rparr>"

definition example_controller_done :: controller_spec where
  "example_controller_done =
     \<lparr>name = ''ctl'', system_monitored = None,
      monitor_for_control = MonitorList [''reward'', ''accuracy''],
      objective = ObjectiveInstance
        \<lparr>monitor = [''reward'', ''accuracy''], om_function = LinearCombination PRODUCT,
         om_name = ''ctl_ObjectiveMechanism'', om_role = Some CONTROL\<rparr>\<rparr>"

lemma example_controller_instantiated:
  "instantiate_objective_mechanism (\<lambda>_. True) example_controller = Inr example_controller_done"
  by (simp add: instantiate_objective_mechanism_def example_controller_def
      example_controller_done_def ObjectiveMechanism_init_def monitor_list_def
      add_unmonitored_def)

lemma transpose_example: "transpose [[2, 3], [4, 5 :: real]] = [[2, 4], [3, 5]]"
  by (simp add: transpose.simps)

theorem default_objective_is_product_witness:
  "instantiate_objective_mechanism (\<lambda>_. True) example_controller = Inr example_controller_done
   \<and> (\<exists>om. objective example_controller_done = ObjectiveInstance om
          \<and> om_function om = LinearCombination PRODUCT
          \<and> om_apply (om_function om) [[2, 3], [4, 5]] = [8, 15])
   \<and> om_apply (LinearCombination SUMMATION) [[2, 3], [4, 5]] = [6, 8]"
proof -
  have "\<not> is_objective_instance (objective example_controller)"
    by (simp add: example_controller_def is_objective_instance_def)
  with example_controller_instantiated
    default_objective_is_product
      [of example_controller "\<lambda>_. True" example_controller_done "[[2, 3], [4, 5]]"]
  show ?thesis
    by (auto simp: transpose_example)
qed

section \<open>The control-signal search space\<close>

text \<open>
  \<open>Controller.get_allocation_policies\<close> (\<open>controller.py\<close>) is one numpy expression,
  \<open>np.array(np.meshgrid(*control_signal_sample_lists)).T.reshape(-1, num_control_signals)\<close>.
  An n-dimensional array is its shape and the function from a multi-index to the item
  there.
\<close>

record 'a ndarray =
  shape :: "nat list"
  item :: "nat list \<Rightarrow> 'a"

text \<open>
  All multi-indices of a shape in C order (the last axis varies fastest), and the flat
  sequence of items in that order, which is what \<open>reshape\<close> reads.
\<close>

definition indices :: "nat list \<Rightarrow> nat list list" where
  "indices s = product_lists (map (\<lambda>n. [0 ..< n]) s)"

definition ravel :: "'a ndarray \<Rightarrow> 'a list" where
  "ravel a = map (item a) (indices (shape a))"

text \<open>
  \<open>np.meshgrid\<close> with its default \<open>indexing='xy'\<close>: one array per input, all of the shape
  \<open>(n2, n1, n3, ...)\<close>, that is the inputs' lengths with the first two swapped (when there
  are at least two); array \<open>j\<close> repeats input \<open>j\<close> along the axis that has its length.
\<close>

definition xy_swap :: "'a list \<Rightarrow> 'a list" where
  "xy_swap s = (case s of a # b # rest \<Rightarrow> b # a # rest | _ \<Rightarrow> s)"

definition meshgrid :: "'a list list \<Rightarrow> 'a ndarray list" where
  "meshgrid xi =
     map (\<lambda>j. \<lparr>shape = xy_swap (map length xi),
               item = (\<lambda>idx. (xi ! j) ! (xy_swap idx ! j))\<rparr>)
       [0 ..< length xi]"

text \<open>
  \<open>np.array\<close> of a list of arrays of one shape stacks them along a new first axis
  (\<open>np.array([])\<close> has shape \<open>(0,)\<close>); \<open>.T\<close> reverses the axes.
\<close>

definition np_array :: "'a ndarray list \<Rightarrow> 'a ndarray" where
  "np_array arrs =
     \<lparr>shape = length arrs # (case arrs of [] \<Rightarrow> [] | a # _ \<Rightarrow> shape a),
      item = (\<lambda>idx. item (arrs ! hd idx) (tl idx))\<rparr>"

definition T :: "'a ndarray \<Rightarrow> 'a ndarray" where
  "T a = \<lparr>shape = rev (shape a), item = (\<lambda>idx. item a (rev idx))\<rparr>"

text \<open>
  \<open>reshape(-1, n)\<close>: the flat items cut into rows of \<open>n\<close>. numpy raises \<open>ValueError\<close>
  when the row count cannot be inferred: \<open>n = 0\<close>, or a size that \<open>n\<close> does not divide.
\<close>

fun chunks :: "nat \<Rightarrow> nat \<Rightarrow> 'a list \<Rightarrow> 'a list list" where
  "chunks 0 n xs = []"
| "chunks (Suc m) n xs = take n xs # chunks m n (drop n xs)"

definition reshape_rows :: "'a ndarray \<Rightarrow> nat \<Rightarrow> pyexn + 'a list list" where
  "reshape_rows a n =
     (let flat = ravel a
      in if n = 0 \<or> length flat mod n \<noteq> 0 then Inl ValueError
         else Inr (chunks (length flat div n) n flat))"

text \<open>
  The method reads the \<open>allocation_samples\<close> of each ControlSignal, in the order of
  \<open>control_signals\<close>; the argument here is that list of sample lists.
\<close>

definition get_allocation_policies :: "real list list \<Rightarrow> pyexn + real list list" where
  "get_allocation_policies control_signal_sample_lists =
     reshape_rows (T (np_array (meshgrid control_signal_sample_lists)))
       (length control_signal_sample_lists)"


subsection \<open>The rows are the Cartesian product\<close>
lemma length_indices: "length (indices s) = prod_list s"
  by (induction s) (simp_all add: indices_def length_concat comp_def sum_list_triv)

lemma set_indices: "set (indices s) = {idx. list_all2 (<) idx s}"
proof -
  have "list_all2 (\<lambda>x ys. x \<in> set ys) idx (map (\<lambda>n. [0 ..< n]) s) = list_all2 (<) idx s"
    for idx
    by (simp add: list_all2_map2)
  then show ?thesis
    by (simp add: indices_def product_lists_set)
qed

lemma distinct_indices: "distinct (indices s)"
  by (simp add: indices_def distinct_product_lists)

lemma mset_indices: "mset (indices s) = mset_set {idx. list_all2 (<) idx s}"
  using mset_set_set [OF distinct_indices, of s] by (simp add: set_indices)

lemma concat_concat_map: "concat (concat xsss) = concat (map concat xsss)"
  by (induction xsss) simp_all

lemma product_lists_snoc:
  "product_lists (xss @ [ys])
     = concat (map (\<lambda>xs. map (\<lambda>y. xs @ [y]) ys) (product_lists xss))"
  by (induction xss) (simp_all add: map_concat comp_def concat_concat_map)

lemma indices_snoc:
  "indices (s @ [n]) = concat (map (\<lambda>idx. map (\<lambda>j. idx @ [j]) [0 ..< n]) (indices s))"
  by (simp add: indices_def product_lists_snoc)

lemma chunks_concat:
  "\<forall>ys \<in> set yss. length ys = n \<Longrightarrow> chunks (length yss) n (concat yss) = yss"
  by (induction yss) simp_all

lemma length_concat_uniform:
  "\<forall>ys \<in> set yss. length ys = n \<Longrightarrow> length (concat yss) = length yss * n"
  by (induction yss) simp_all


text \<open>The combination that takes sample \<open>idx ! j\<close> from sample list \<open>j\<close>.\<close>

definition pick :: "'a list list \<Rightarrow> nat list \<Rightarrow> 'a list" where
  "pick xi idx = map (\<lambda>j. (xi ! j) ! (idx ! j)) [0 ..< length xi]"

lemma pick_Cons: "pick (xs # xss) (i # idx) = (xs ! i) # pick xss idx"
  by (simp add: pick_def upt_conv_Cons map_Suc_upt [symmetric] del: upt_Suc)

lemma product_lists_pick: "product_lists xi = map (pick xi) (indices (map length xi))"
proof (induction xi)
  case Nil
  then show ?case by (simp add: indices_def pick_def)
next
  case (Cons xs xss)
  have "map (pick (xs # xss)) (indices (map length (xs # xss)))
      = concat (map (\<lambda>i. map (Cons (xs ! i)) (map (pick xss) (indices (map length xss))))
          [0 ..< length xs])"
    by (simp add: indices_def map_concat comp_def pick_Cons)
  also have "\<dots> = concat (map (\<lambda>x. map (Cons x) (product_lists xss)) (map (nth xs) [0 ..< length xs]))"
    by (simp add: Cons.IH comp_def)
  also have "\<dots> = product_lists (xs # xss)"
    by (simp add: map_nth)
  finally show ?case by simp
qed


lemma image_mset_indices:
  fixes f :: "nat list \<Rightarrow> nat list"
  assumes rel: "\<And>a b. list_all2 (<) a b \<Longrightarrow> list_all2 (<) (f a) (f b)"
    and inv: "\<And>a. f (f a) = a"
  shows "image_mset f (mset (indices (f s))) = mset (indices s)"
proof -
  have inj: "inj_on f A" for A
    by (rule inj_onI) (metis inv)
  have "f ` {idx. list_all2 (<) idx (f s)} = {idx. list_all2 (<) idx s}"
  proof (intro set_eqI iffI)
    fix idx
    assume "idx \<in> f ` {idx. list_all2 (<) idx (f s)}"
    then obtain a where "idx = f a" "list_all2 (<) a (f s)" by auto
    with rel [of a "f s"] show "idx \<in> {idx. list_all2 (<) idx s}"
      by (simp add: inv)
  next
    fix idx
    assume "idx \<in> {idx. list_all2 (<) idx s}"
    then have "list_all2 (<) (f idx) (f s)" using rel by simp
    then have "f (f idx) \<in> f ` {idx. list_all2 (<) idx (f s)}" by blast
    then show "idx \<in> f ` {idx. list_all2 (<) idx (f s)}" by (simp add: inv)
  qed
  then show ?thesis
    by (simp add: mset_indices image_mset_mset_set [OF inj])
qed

lemma xy_swap_involution: "xy_swap (xy_swap s) = s"
  by (simp add: xy_swap_def split: list.splits)

lemma xy_swap_all2: "list_all2 P a b \<Longrightarrow> list_all2 P (xy_swap a) (xy_swap b)"
  by (auto simp: xy_swap_def list_all2_Cons1 split: list.splits)

lemma length_xy_swap: "length (xy_swap s) = length s"
  by (simp add: xy_swap_def split: list.splits)

lemma image_mset_rev_indices: "image_mset rev (mset (indices (rev s))) = mset (indices s)"
  by (rule image_mset_indices) simp_all

lemma image_mset_xy_swap_indices:
  "image_mset xy_swap (mset (indices (xy_swap s))) = mset (indices s)"
  by (rule image_mset_indices) (simp_all add: xy_swap_all2 xy_swap_involution)

lemma length_meshgrid: "length (meshgrid xi) = length xi"
  by (simp add: meshgrid_def)

lemma shape_meshgrid: "a \<in> set (meshgrid xi) \<Longrightarrow> shape a = xy_swap (map length xi)"
  by (auto simp: meshgrid_def)

lemma item_meshgrid:
  "j < length xi \<Longrightarrow> item (meshgrid xi ! j) idx = (xi ! j) ! (xy_swap idx ! j)"
  by (simp add: meshgrid_def)

lemma shape_T_np_array_meshgrid:
  assumes "xi \<noteq> []"
  shows "shape (T (np_array (meshgrid xi))) = rev (xy_swap (map length xi)) @ [length xi]"
proof -
  have "meshgrid xi \<noteq> []" using assms by (simp add: meshgrid_def)
  then obtain m ms where mm: "meshgrid xi = m # ms" by (cases "meshgrid xi") auto
  then have "m \<in> set (meshgrid xi)" by simp
  then have "shape m = xy_swap (map length xi)" by (rule shape_meshgrid)
  moreover have "length (m # ms) = length xi" using mm length_meshgrid [of xi] by simp
  ultimately show ?thesis
    unfolding mm by (simp add: T_def np_array_def)
qed

lemma item_T_np_array_meshgrid:
  "j < length xi \<Longrightarrow>
   item (T (np_array (meshgrid xi))) (idx @ [j]) = (xi ! j) ! (xy_swap (rev idx) ! j)"
  by (simp add: T_def np_array_def item_meshgrid)

lemma ravel_T_np_array_meshgrid:
  assumes "xi \<noteq> []"
  shows "ravel (T (np_array (meshgrid xi)))
     = concat (map (\<lambda>idx. pick xi (xy_swap (rev idx)))
         (indices (rev (xy_swap (map length xi)))))"
proof -
  let ?k = "length xi"
  let ?sw = "xy_swap (map length xi)"
  let ?a = "T (np_array (meshgrid xi))"
  have "ravel ?a = map (item ?a) (indices (rev ?sw @ [?k]))"
    by (simp add: ravel_def shape_T_np_array_meshgrid [OF assms])
  also have "\<dots> = concat (map (\<lambda>idx. map (\<lambda>j. item ?a (idx @ [j])) [0 ..< ?k]) (indices (rev ?sw)))"
    by (simp add: indices_snoc map_concat comp_def)
  also have "\<dots> = concat (map (\<lambda>idx. pick xi (xy_swap (rev idx))) (indices (rev ?sw)))"
  proof -
    have "map (\<lambda>j. item ?a (idx @ [j])) [0 ..< ?k] = pick xi (xy_swap (rev idx))" for idx
      unfolding pick_def by (rule map_cong) (simp_all add: item_T_np_array_meshgrid)
    then show ?thesis by simp
  qed
  finally show ?thesis .
qed


lemma length_pick: "length (pick xi idx) = length xi"
  by (simp add: pick_def)

lemma get_allocation_policies_rows:
  assumes "xi \<noteq> []"
  shows "get_allocation_policies xi
     = Inr (map (\<lambda>idx. pick xi (xy_swap (rev idx))) (indices (rev (xy_swap (map length xi)))))"
proof -
  let ?k = "length xi"
  let ?rows = "map (\<lambda>idx. pick xi (xy_swap (rev idx))) (indices (rev (xy_swap (map length xi))))"
  have k: "0 < ?k" using assms by simp
  have uniform: "\<forall>ys \<in> set ?rows. length ys = ?k"
    by (simp add: length_pick)
  have flat: "ravel (T (np_array (meshgrid xi))) = concat ?rows"
    using ravel_T_np_array_meshgrid [OF assms] by simp
  have len: "length (concat ?rows) = length ?rows * ?k"
    using uniform by (rule length_concat_uniform)
  have "chunks (length ?rows) ?k (concat ?rows) = ?rows"
    using uniform by (rule chunks_concat)
  with k len show ?thesis
    unfolding get_allocation_policies_def reshape_rows_def flat Let_def by simp
qed

text \<open>
  C3. For at least one ControlSignal, \<open>get_allocation_policies\<close> returns the full
  Cartesian product of the sample lists: the number of policies is the product of the
  lists' sizes, and the policies are, up to their order, exactly the combinations of one
  sample per ControlSignal, each as often as \<open>product_lists\<close> enumerates it (once, when
  no sample list repeats a value).
\<close>

theorem allocation_policies_cartesian_product:
  assumes "sample_lists \<noteq> []"
  shows "\<exists>policies. get_allocation_policies sample_lists = Inr policies
           \<and> length policies = prod_list (map length sample_lists)
           \<and> mset policies = mset (product_lists sample_lists)
           \<and> ((\<forall>samples \<in> set sample_lists. distinct samples) \<longrightarrow> distinct policies)"
proof -
  let ?S = "map length sample_lists"
  let ?rows = "map (\<lambda>idx. pick sample_lists (xy_swap (rev idx))) (indices (rev (xy_swap ?S)))"
  have "image_mset (\<lambda>idx. xy_swap (rev idx)) (mset (indices (rev (xy_swap ?S))))
      = image_mset xy_swap (image_mset rev (mset (indices (rev (xy_swap ?S)))))"
    by (simp add: multiset.map_comp comp_def)
  also have "\<dots> = mset (indices ?S)"
    by (simp only: image_mset_rev_indices image_mset_xy_swap_indices)
  finally have idx: "image_mset (\<lambda>idx. xy_swap (rev idx)) (mset (indices (rev (xy_swap ?S))))
      = mset (indices ?S)" .
  have "mset ?rows
      = image_mset (pick sample_lists)
          (image_mset (\<lambda>idx. xy_swap (rev idx)) (mset (indices (rev (xy_swap ?S)))))"
    by (simp add: multiset.map_comp comp_def)
  also have "\<dots> = mset (product_lists sample_lists)"
    by (simp only: idx product_lists_pick [of sample_lists] mset_map)
  finally have perm: "mset ?rows = mset (product_lists sample_lists)" .
  have "length ?rows = length (product_lists sample_lists)"
    using perm by (rule mset_eq_length)
  also have "\<dots> = prod_list ?S"
    by (subst product_lists_pick) (simp add: length_indices)
  finally have len: "length ?rows = prod_list ?S" .
  have "distinct ?rows" if "\<forall>samples \<in> set sample_lists. distinct samples"
    using distinct_product_lists [OF that] perm by (metis mset_eq_imp_distinct_iff)
  with perm len get_allocation_policies_rows [OF assms] show ?thesis
    by blast
qed

text \<open>
  Two ControlSignals with two and three samples: six policies, the second signal's sample
  varying fastest. Without any ControlSignal the reshape raises.
\<close>

lemma example_policies:
  "get_allocation_policies [[0, 1], [10, 20, 30]]
     = Inr [[0, 10], [0, 20], [0, 30], [1, 10], [1, 20], [1, 30]]"
  by (simp add: get_allocation_policies_rows indices_def xy_swap_def pick_def upt_rec)

lemma no_control_signals: "get_allocation_policies [] = Inl ValueError"
  by (simp add: get_allocation_policies_def reshape_rows_def)

theorem allocation_policies_cartesian_product_witness:
  "get_allocation_policies [[0, 1], [10, 20, 30]]
     = Inr [[0, 10], [0, 20], [0, 30], [1, 10], [1, 20], [1, 30]]
   \<and> length [[0, 10], [0, 20], [0, 30], [1, 10], [1, 20], [1, 30 :: real]] = 2 * 3
   \<and> mset [[0, 10], [0, 20], [0, 30], [1, 10], [1, 20], [1, 30 :: real]]
       = mset (product_lists [[0, 1], [10, 20, 30]])
   \<and> distinct [[0, 10], [0, 20], [0, 30], [1, 10], [1, 20], [1, 30 :: real]]"
  using allocation_policies_cartesian_product [of "[[0, 1], [10, 20, 30]]"]
  by (simp add: example_policies)

section \<open>Gradient ascent over the prediction vector\<close>

text \<open>
  \<open>LVOCControlMechanism.gradient_ascent\<close> (\<open>lvoccontrolmechanism.py\<close>). Vectors are lists of
  reals. A Python slice \<open>xs[a:b]\<close> of a list that is long enough is \<open>py_slice xs a b\<close>, and
  assigning \<open>vals\<close> to the slice that starts at \<open>a\<close> and has their length is
  \<open>assign_slice\<close>. The theorems about values assume the shapes that
  \<open>_parse_function_variable\<close> sets up (\<open>well_shaped\<close> below); on other shapes numpy raises or
  broadcasts, which is not modelled.
\<close>

definition py_slice :: "'a list \<Rightarrow> nat \<Rightarrow> nat \<Rightarrow> 'a list" where
  "py_slice xs a b = take (b - a) (drop a xs)"

definition assign_slice :: "'a list \<Rightarrow> nat \<Rightarrow> 'a list \<Rightarrow> 'a list" where
  "assign_slice xs a vals = take a xs @ vals @ drop (a + length vals) xs"

text \<open>
  A ControlSignal as the method reads it: its \<open>intensity_cost_function\<close> and the
  \<open>derivative\<close> of the Function that owns it. The mechanism's attributes that the method
  reads follow; \<open>udpate_rate\<close> is the source's spelling.
\<close>

record lvoc_signal =
  intensity_cost_function :: "real \<Rightarrow> real"
  intensity_cost_derivative :: "real \<Rightarrow> real"

record lvoc_mechanism =
  num_predictors :: nat
  num_control_signals :: nat
  num_costs :: nat
  convergence_criterion :: real
  max_iterations :: int
  udpate_rate :: real

text \<open>
  The fields of the prediction vector, as \<open>_parse_function_variable\<close> lays them out:
  predictors, interactions (one row per control signal), control signals, costs.
\<close>

definition intrxn_start :: "lvoc_mechanism \<Rightarrow> nat" where
  "intrxn_start m = num_predictors m"

definition intrxn_stop :: "lvoc_mechanism \<Rightarrow> nat" where
  "intrxn_stop m = num_predictors m + num_predictors m * num_control_signals m"

definition ctl_start :: "lvoc_mechanism \<Rightarrow> nat" where
  "ctl_start m = intrxn_stop m"

definition ctl_stop :: "lvoc_mechanism \<Rightarrow> nat" where
  "ctl_stop m = intrxn_stop m + num_control_signals m"

definition cst_start :: "lvoc_mechanism \<Rightarrow> nat" where
  "cst_start m = ctl_stop m"

definition len_prediction_vector :: "lvoc_mechanism \<Rightarrow> nat" where
  "len_prediction_vector m =
     num_predictors m + num_predictors m * num_control_signals m
       + num_control_signals m + num_costs m"

definition pred :: "lvoc_mechanism \<Rightarrow> 'a list \<Rightarrow> 'a list" where
  "pred m v = py_slice v 0 (num_predictors m)"

definition intrxn :: "lvoc_mechanism \<Rightarrow> 'a list \<Rightarrow> 'a list" where
  "intrxn m v = py_slice v (intrxn_start m) (intrxn_stop m)"

definition ctl :: "lvoc_mechanism \<Rightarrow> 'a list \<Rightarrow> 'a list" where
  "ctl m v = py_slice v (ctl_start m) (ctl_stop m)"

definition cst :: "lvoc_mechanism \<Rightarrow> 'a list \<Rightarrow> 'a list" where
  "cst m v = py_slice v (cst_start m) (len_prediction_vector m)"

text \<open>\<open>compute_lvoc\<close>: \<open>np.sum(v * w)\<close>.\<close>

definition compute_lvoc :: "real list \<Rightarrow> real list \<Rightarrow> real" where
  "compute_lvoc v w = sum_list (map2 (*) v w)"

text \<open>
  Before the loop: the interaction weights, reshaped to one row per control signal, times
  the predictors; and for each control signal its weight plus the sum of its row.
\<close>

definition interaction_weights_x_predictors ::
    "lvoc_mechanism \<Rightarrow> real list \<Rightarrow> real list \<Rightarrow> real list list" where
  "interaction_weights_x_predictors m prediction_vector prediction_weights =
     map (\<lambda>i. map2 (*)
                (py_slice (intrxn m prediction_weights)
                   (i * num_predictors m) (i * num_predictors m + num_predictors m))
                (py_slice prediction_vector 0 (num_predictors m)))
       [0 ..< num_control_signals m]"

definition gradient_constants :: "lvoc_mechanism \<Rightarrow> real list \<Rightarrow> real list \<Rightarrow> real list" where
  "gradient_constants m prediction_vector prediction_weights =
     map (\<lambda>i. ctl m prediction_weights ! i
               + sum_list (interaction_weights_x_predictors m prediction_vector prediction_weights ! i))
       [0 ..< num_control_signals m]"

text \<open>
  The inner \<open>for\<close> loop. \<open>control_signal_values\<close> and \<open>costs\<close> are numpy views of the
  prediction vector, so writing item \<open>i\<close> of either writes the vector itself; the state
  of the loop is the vector and the two gradient arrays. Pass \<open>i\<close> reads the current
  value of control signal \<open>i\<close>, sets \<open>cost_gradient[i]\<close>, adds it to \<open>gradient[i]\<close>, moves
  the control signal by \<open>udpate_rate * gradient[i]\<close> and stores the negated cost of the value
  it read.
\<close>

record inner_state =
  vector :: "real list"
  gradient :: "real list"
  cost_gradient :: "real list"

definition inner_step ::
    "lvoc_mechanism \<Rightarrow> lvoc_signal list \<Rightarrow> real list \<Rightarrow> nat \<Rightarrow> inner_state \<Rightarrow> inner_state" where
  "inner_step m signals prediction_weights i st =
     (let control_signal_value = ctl m (vector st) ! i;
          cost_function_derivative = intensity_cost_derivative (signals ! i);
          cost_gradient' = (cost_gradient st)
            [i := - (cost_function_derivative control_signal_value * cst m prediction_weights ! i)];
          gradient' = (gradient st) [i := gradient st ! i + cost_gradient' ! i];
          v1 = (vector st)
            [ctl_start m + i := control_signal_value + udpate_rate m * gradient' ! i];
          v2 = v1
            [cst_start m + i := - intensity_cost_function (signals ! i) control_signal_value]
      in \<lparr>vector = v2, gradient = gradient', cost_gradient = cost_gradient'\<rparr>)"

definition inner_loop ::
    "lvoc_mechanism \<Rightarrow> lvoc_signal list \<Rightarrow> real list \<Rightarrow> real list \<Rightarrow> real list \<Rightarrow> inner_state" where
  "inner_loop m signals prediction_weights constants prediction_vector =
     fold (inner_step m signals prediction_weights)
       [0 ..< length (ctl m prediction_vector)]
       \<lparr>vector = prediction_vector, gradient = constants,
        cost_gradient = replicate (num_costs m) 0\<rparr>"

text \<open>
  One pass of the \<open>while\<close> body up to the new prediction vector: the inner loop, then the
  interaction terms recomputed from the predictors and the updated control signals (the
  two assignments after it write the views back onto themselves).
\<close>

definition ga_iteration ::
    "lvoc_mechanism \<Rightarrow> lvoc_signal list \<Rightarrow> real list \<Rightarrow> real list \<Rightarrow> real list \<Rightarrow> real list" where
  "ga_iteration m signals prediction_weights constants prediction_vector =
     (let v = vector (inner_loop m signals prediction_weights constants prediction_vector)
      in assign_slice v (intrxn_start m)
           (concat (map (\<lambda>c. map (\<lambda>p. p * c) (pred m v)) (ctl m v))))"

text \<open>
  The \<open>while\<close> loop, with the iteration count \<open>j\<close> and the warning as part of the result.
  It recurses only while \<open>j + 1\<close> has not exceeded \<open>max_iterations\<close>, which is its
  termination measure.
\<close>

record ga_result =
  control_signal_values :: "real list"
  final_vector :: "real list"
  iterations :: nat
  warned :: bool

function ga_while ::
    "lvoc_mechanism \<Rightarrow> lvoc_signal list \<Rightarrow> real list \<Rightarrow> real list
      \<Rightarrow> nat \<Rightarrow> real \<Rightarrow> real \<Rightarrow> real list \<Rightarrow> ga_result" where
  "ga_while m signals prediction_weights constants j convergence_metric previous_lvoc
       prediction_vector =
     (if convergence_metric > convergence_criterion m
      then if int (j + 1) > max_iterations m
        then \<lparr>control_signal_values =
                 ctl m (ga_iteration m signals prediction_weights constants prediction_vector),
              final_vector =
                 ga_iteration m signals prediction_weights constants prediction_vector,
              iterations = j + 1, warned = True\<rparr>
        else ga_while m signals prediction_weights constants (j + 1)
               \<bar>compute_lvoc
                   (ga_iteration m signals prediction_weights constants prediction_vector)
                   prediction_weights - previous_lvoc\<bar>
               (compute_lvoc
                   (ga_iteration m signals prediction_weights constants prediction_vector)
                   prediction_weights)
               (ga_iteration m signals prediction_weights constants prediction_vector)
      else \<lparr>control_signal_values = ctl m prediction_vector, final_vector = prediction_vector,
            iterations = j, warned = False\<rparr>)"
  by pat_completeness auto
termination
  by (relation "measure (\<lambda>(m, _, _, _, j, _, _, _). nat (max_iterations m - int j))") auto

text \<open>
  \<open>EPSILON\<close> and \<open>np.finfo(np.float128).max\<close> come from outside these sources and are
  parameters.
\<close>

definition gradient_ascent ::
    "real \<Rightarrow> real \<Rightarrow> lvoc_mechanism \<Rightarrow> lvoc_signal list \<Rightarrow> real list \<Rightarrow> real list \<Rightarrow> ga_result" where
  "gradient_ascent EPSILON float128_max m signals prediction_vector prediction_weights =
     ga_while m signals prediction_weights
       (gradient_constants m prediction_vector prediction_weights)
       0 (convergence_criterion m + EPSILON) float128_max prediction_vector"

subsection \<open>Termination and the stopping rule\<close>

declare ga_while.simps [simp del]

text \<open>
  One pass of the \<open>while\<close> body on the three variables it carries from one pass to the
  next: the convergence metric, the previous LVOC and the prediction vector.
\<close>

definition ga_step ::
    "lvoc_mechanism \<Rightarrow> lvoc_signal list \<Rightarrow> real list \<Rightarrow> real list
      \<Rightarrow> real \<times> real \<times> real list \<Rightarrow> real \<times> real \<times> real list" where
  "ga_step m signals prediction_weights constants s =
     (case s of (convergence_metric, previous_lvoc, prediction_vector) \<Rightarrow>
        (\<bar>compute_lvoc (ga_iteration m signals prediction_weights constants prediction_vector)
             prediction_weights - previous_lvoc\<bar>,
         compute_lvoc (ga_iteration m signals prediction_weights constants prediction_vector)
           prediction_weights,
         ga_iteration m signals prediction_weights constants prediction_vector))"

definition ga_after ::
    "real \<Rightarrow> real \<Rightarrow> lvoc_mechanism \<Rightarrow> lvoc_signal list \<Rightarrow> real list \<Rightarrow> real list
      \<Rightarrow> nat \<Rightarrow> real \<times> real \<times> real list" where
  "ga_after EPSILON float128_max m signals prediction_vector prediction_weights t =
     (ga_step m signals prediction_weights
        (gradient_constants m prediction_vector prediction_weights) ^^ t)
       (convergence_criterion m + EPSILON, float128_max, prediction_vector)"

definition metric_after ::
    "real \<Rightarrow> real \<Rightarrow> lvoc_mechanism \<Rightarrow> lvoc_signal list \<Rightarrow> real list \<Rightarrow> real list
      \<Rightarrow> nat \<Rightarrow> real" where
  "metric_after EPSILON float128_max m signals prediction_vector prediction_weights t =
     fst (ga_after EPSILON float128_max m signals prediction_vector prediction_weights t)"

definition vector_after ::
    "real \<Rightarrow> real \<Rightarrow> lvoc_mechanism \<Rightarrow> lvoc_signal list \<Rightarrow> real list \<Rightarrow> real list
      \<Rightarrow> nat \<Rightarrow> real list" where
  "vector_after EPSILON float128_max m signals prediction_vector prediction_weights t =
     snd (snd (ga_after EPSILON float128_max m signals prediction_vector prediction_weights t))"

lemma ga_while_characterised:
  "\<exists>n. iterations (ga_while m signals w gc j metric prev pv) = j + n
     \<and> final_vector (ga_while m signals w gc j metric prev pv)
         = snd (snd ((ga_step m signals w gc ^^ n) (metric, prev, pv)))
     \<and> control_signal_values (ga_while m signals w gc j metric prev pv)
         = ctl m (final_vector (ga_while m signals w gc j metric prev pv))
     \<and> (\<forall>k < n. fst ((ga_step m signals w gc ^^ k) (metric, prev, pv)) > convergence_criterion m)
     \<and> (\<forall>k < n. 0 < k \<longrightarrow> int (j + k) \<le> max_iterations m)
     \<and> (warned (ga_while m signals w gc j metric prev pv)
           \<longleftrightarrow> 0 < n \<and> int (j + n) > max_iterations m)
     \<and> (\<not> warned (ga_while m signals w gc j metric prev pv)
           \<longrightarrow> fst ((ga_step m signals w gc ^^ n) (metric, prev, pv)) \<le> convergence_criterion m)"
proof (induction m signals w gc j metric prev pv rule: ga_while.induct)
  case (1 m signals w gc j metric prev pv)
  let ?step = "ga_step m signals w gc"
  let ?s = "(metric, prev, pv)"
  let ?r = "ga_while m signals w gc j metric prev pv"
  show ?case
  proof (cases "metric > convergence_criterion m")
    case False
    then have "?r = \<lparr>control_signal_values = ctl m pv, final_vector = pv,
                     iterations = j, warned = False\<rparr>"
      by (subst ga_while.simps) simp
    with False show ?thesis
      by (intro exI [of _ 0]) simp
  next
    case go: True
    let ?pv' = "ga_iteration m signals w gc pv"
    have s1: "?step ?s = (\<bar>compute_lvoc ?pv' w - prev\<bar>, compute_lvoc ?pv' w, ?pv')"
      by (simp add: ga_step_def)
    show ?thesis
    proof (cases "int (j + 1) > max_iterations m")
      case True
      with go have "?r = \<lparr>control_signal_values = ctl m ?pv', final_vector = ?pv',
                     iterations = j + 1, warned = True\<rparr>"
        by (subst ga_while.simps) simp
      with go True s1 show ?thesis
        by (intro exI [of _ 1]) simp
    next
      case False
      let ?r' = "ga_while m signals w gc (j + 1) \<bar>compute_lvoc ?pv' w - prev\<bar>
                   (compute_lvoc ?pv' w) ?pv'"
      from go False have unfold: "?r = ?r'"
        by (subst ga_while.simps) simp
      from "1.IH" [OF go False] obtain n where n:
        "iterations ?r' = j + 1 + n"
        "final_vector ?r' = snd (snd ((?step ^^ n) (?step ?s)))"
        "control_signal_values ?r' = ctl m (final_vector ?r')"
        "\<forall>k < n. fst ((?step ^^ k) (?step ?s)) > convergence_criterion m"
        "\<forall>k < n. 0 < k \<longrightarrow> int (j + 1 + k) \<le> max_iterations m"
        "warned ?r' \<longleftrightarrow> 0 < n \<and> int (j + 1 + n) > max_iterations m"
        "\<not> warned ?r' \<longrightarrow> fst ((?step ^^ n) (?step ?s)) \<le> convergence_criterion m"
        unfolding s1 by blast
      have shift: "(?step ^^ k) (?step ?s) = (?step ^^ Suc k) ?s" for k
        by (simp add: funpow_swap1)
      have a: "\<forall>k < Suc n. fst ((?step ^^ k) ?s) > convergence_criterion m"
      proof (intro allI impI)
        fix k assume "k < Suc n"
        show "fst ((?step ^^ k) ?s) > convergence_criterion m"
        proof (cases k)
          case 0
          with go show ?thesis by simp
        next
          case (Suc k')
          with \<open>k < Suc n\<close> n(4) have "fst ((?step ^^ k') (?step ?s)) > convergence_criterion m"
            by simp
          with Suc show ?thesis by (simp only: shift)
        qed
      qed
      have b: "\<forall>k < Suc n. 0 < k \<longrightarrow> int (j + k) \<le> max_iterations m"
      proof (intro allI impI)
        fix k assume k: "k < Suc n" "0 < k"
        then obtain k' where k': "k = Suc k'" by (cases k) auto
        show "int (j + k) \<le> max_iterations m"
        proof (cases k')
          case 0
          with k' False show ?thesis by simp
        next
          case (Suc k'')
          with k k' have "k' < n" "0 < k'" by simp_all
          with n(5) have "int (j + 1 + k') \<le> max_iterations m" by blast
          with k' show ?thesis by simp
        qed
      qed
      have c: "warned ?r \<longleftrightarrow> 0 < Suc n \<and> int (j + Suc n) > max_iterations m"
        using n(6) False unfolding unfold by (cases n) auto
      have d: "\<not> warned ?r \<longrightarrow> fst ((?step ^^ Suc n) ?s) \<le> convergence_criterion m"
        using n(7) unfolding unfold by (simp only: shift)
      have e: "final_vector ?r = snd (snd ((?step ^^ Suc n) ?s))"
        using n(2) unfolding unfold by (simp only: shift)
      have f: "iterations ?r = j + Suc n" "control_signal_values ?r = ctl m (final_vector ?r)"
        using n(1,3) unfolding unfold by simp_all
      from a b c d e f show ?thesis
        by (intro exI [of _ "Suc n"] conjI)
    qed
  qed
qed

text \<open>
  C4. \<open>gradient_ascent\<close> is a total function: for a positive \<open>EPSILON\<close> it runs at least
  one and at most \<open>max 1 (max_iterations + 1)\<close> passes and returns the control signals of
  the vector reached by its last pass. Before the last pass the convergence metric was
  above \<open>convergence_criterion\<close> and the count within \<open>max_iterations\<close>; the warning is
  emitted exactly when the count of passes exceeds \<open>max_iterations\<close>, and without a
  warning the last metric is at most \<open>convergence_criterion\<close>.
\<close>

theorem gradient_ascent_terminates:
  assumes "0 < EPSILON"
  shows "(let r = gradient_ascent EPSILON float128_max m signals pv w;
              metric = metric_after EPSILON float128_max m signals pv w
          in 1 \<le> iterations r
           \<and> int (iterations r) \<le> max 1 (max_iterations m + 1)
           \<and> final_vector r = vector_after EPSILON float128_max m signals pv w (iterations r)
           \<and> control_signal_values r = ctl m (final_vector r)
           \<and> (\<forall>t. 1 \<le> t \<and> t < iterations r
                  \<longrightarrow> metric t > convergence_criterion m \<and> int t \<le> max_iterations m)
           \<and> (warned r \<longleftrightarrow> int (iterations r) > max_iterations m)
           \<and> (\<not> warned r \<longrightarrow> metric (iterations r) \<le> convergence_criterion m))"
proof -
  let ?gc = "gradient_constants m pv w"
  let ?s = "(convergence_criterion m + EPSILON, float128_max, pv)"
  let ?step = "ga_step m signals w ?gc"
  let ?r = "ga_while m signals w ?gc 0 (convergence_criterion m + EPSILON) float128_max pv"
  from ga_while_characterised [of m signals w ?gc 0 "convergence_criterion m + EPSILON" float128_max pv]
  obtain n where n0:
    "iterations ?r = 0 + n
     \<and> final_vector ?r = snd (snd ((?step ^^ n) ?s))
     \<and> control_signal_values ?r = ctl m (final_vector ?r)
     \<and> (\<forall>k < n. fst ((?step ^^ k) ?s) > convergence_criterion m)
     \<and> (\<forall>k < n. 0 < k \<longrightarrow> int (0 + k) \<le> max_iterations m)
     \<and> (warned ?r \<longleftrightarrow> 0 < n \<and> int (0 + n) > max_iterations m)
     \<and> (\<not> warned ?r \<longrightarrow> fst ((?step ^^ n) ?s) \<le> convergence_criterion m)"
    by (rule exE)
  then have n:
    "iterations ?r = n"
    "final_vector ?r = snd (snd ((?step ^^ n) ?s))"
    "control_signal_values ?r = ctl m (final_vector ?r)"
    "\<forall>k < n. fst ((?step ^^ k) ?s) > convergence_criterion m"
    "\<forall>k < n. 0 < k \<longrightarrow> int k \<le> max_iterations m"
    "warned ?r \<longleftrightarrow> 0 < n \<and> int n > max_iterations m"
    "\<not> warned ?r \<longrightarrow> fst ((?step ^^ n) ?s) \<le> convergence_criterion m"
    by simp_all
  have pos: "1 \<le> n"
  proof (rule ccontr)
    assume "\<not> 1 \<le> n"
    then have "n = 0" by simp
    with n(6,7) have "convergence_criterion m + EPSILON \<le> convergence_criterion m" by simp
    with assms show False by simp
  qed
  have bound: "int n \<le> max 1 (max_iterations m + 1)"
  proof (cases "n \<le> 1")
    case True
    then show ?thesis by simp
  next
    case False
    then have "n - 1 < n" "0 < n - 1" by simp_all
    with n(5) have "int (n - 1) \<le> max_iterations m" by blast
    then show ?thesis using False by simp
  qed
  have before: "fst ((?step ^^ t) ?s) > convergence_criterion m \<and> int t \<le> max_iterations m"
    if "1 \<le> t" "t < n" for t
    using that n(4,5) by simp
  have warn: "warned ?r \<longleftrightarrow> int n > max_iterations m"
    using n(6) pos by simp
  show ?thesis
    unfolding Let_def gradient_ascent_def metric_after_def vector_after_def ga_after_def n(1)
    using pos bound n(2,3,7) before warn by simp
qed

subsection \<open>The gradient and the update of one pass\<close>

text \<open>
  The shapes \<open>_parse_function_variable\<close> sets up: as many costs and ControlSignals as
  control-signal fields, and weights of the length of the prediction vector.
\<close>

definition well_shaped :: "lvoc_mechanism \<Rightarrow> lvoc_signal list \<Rightarrow> real list \<Rightarrow> bool" where
  "well_shaped m signals prediction_weights \<longleftrightarrow>
     num_costs m = num_control_signals m
     \<and> length signals = num_control_signals m
     \<and> length prediction_weights = len_prediction_vector m"

lemma py_slice_nth: "a + i < b \<Longrightarrow> b \<le> length xs \<Longrightarrow> py_slice xs a b ! i = xs ! (a + i)"
  by (simp add: py_slice_def)

lemma length_py_slice: "b \<le> length xs \<Longrightarrow> length (py_slice xs a b) = b - a"
  by (simp add: py_slice_def)

lemma ctl_nth:
  "length v = len_prediction_vector m \<Longrightarrow> i < num_control_signals m \<Longrightarrow>
   ctl m v ! i = v ! (ctl_start m + i)"
  by (simp add: ctl_def ctl_start_def ctl_stop_def len_prediction_vector_def intrxn_stop_def
      py_slice_nth)

lemma length_ctl:
  "length v = len_prediction_vector m \<Longrightarrow> length (ctl m v) = num_control_signals m"
  by (simp add: ctl_def ctl_start_def ctl_stop_def len_prediction_vector_def intrxn_stop_def
      length_py_slice)

lemma cst_nth:
  "length v = len_prediction_vector m \<Longrightarrow> i < num_costs m \<Longrightarrow>
   cst m v ! i = v ! (cst_start m + i)"
  by (simp add: cst_def cst_start_def ctl_stop_def len_prediction_vector_def intrxn_stop_def
      py_slice_nth)

lemma inner_step_length:
  "length (vector (inner_step m signals w i st)) = length (vector st)"
  "length (gradient (inner_step m signals w i st)) = length (gradient st)"
  "length (cost_gradient (inner_step m signals w i st)) = length (cost_gradient st)"
  by (simp_all add: inner_step_def Let_def)

lemma inner_step_gradient:
  assumes "i < length (gradient st)" "i < length (cost_gradient st)"
  shows "gradient (inner_step m signals w i st)
     = (gradient st)
         [i := gradient st ! i
               - intensity_cost_derivative (signals ! i) (ctl m (vector st) ! i) * cst m w ! i]"
  using assms by (simp add: inner_step_def Let_def)

lemma inner_step_vector:
  assumes "i < length (gradient st)" "i < length (cost_gradient st)"
  shows "vector (inner_step m signals w i st)
     = (vector st)
         [ctl_start m + i :=
            ctl m (vector st) ! i
            + udpate_rate m
              * (gradient st ! i
                 - intensity_cost_derivative (signals ! i) (ctl m (vector st) ! i) * cst m w ! i),
          cst_start m + i := - intensity_cost_function (signals ! i) (ctl m (vector st) ! i)]"
  using assms by (simp add: inner_step_def Let_def)


lemma pred_update:
  "num_predictors m \<le> p \<Longrightarrow> pred m (v[p := x]) = pred m v"
  by (simp add: pred_def py_slice_def)

lemma ctl_start_ge: "num_predictors m \<le> ctl_start m"
  by (simp add: ctl_start_def intrxn_stop_def)

lemma cst_start_eq: "cst_start m = ctl_start m + num_control_signals m"
  by (simp add: cst_start_def ctl_stop_def ctl_start_def)

text \<open>The state of the inner \<open>for\<close> loop after its first \<open>k\<close> passes.\<close>

definition inner_upto ::
    "lvoc_mechanism \<Rightarrow> lvoc_signal list \<Rightarrow> real list \<Rightarrow> real list \<Rightarrow> real list
      \<Rightarrow> nat \<Rightarrow> inner_state" where
  "inner_upto m signals w gc v k =
     fold (inner_step m signals w) [0 ..< k]
       \<lparr>vector = v, gradient = gc, cost_gradient = replicate (num_costs m) 0\<rparr>"

lemma inner_prefix:
  assumes lenv: "length v = len_prediction_vector m"
    and nc: "num_costs m = num_control_signals m"
    and lgc: "length gc = num_control_signals m"
    and k: "k \<le> num_control_signals m"
  shows "length (vector (inner_upto m signals w gc v k)) = length v
      \<and> length (gradient (inner_upto m signals w gc v k)) = num_control_signals m
      \<and> length (cost_gradient (inner_upto m signals w gc v k)) = num_control_signals m
      \<and> pred m (vector (inner_upto m signals w gc v k)) = pred m v
      \<and> (\<forall>i < num_control_signals m.
            gradient (inner_upto m signals w gc v k) ! i
              = (if i < k
                 then gc ! i - intensity_cost_derivative (signals ! i) (ctl m v ! i) * cst m w ! i
                 else gc ! i)
            \<and> ctl m (vector (inner_upto m signals w gc v k)) ! i
              = (if i < k
                 then ctl m v ! i
                      + udpate_rate m
                        * (gc ! i
                           - intensity_cost_derivative (signals ! i) (ctl m v ! i) * cst m w ! i)
                 else ctl m v ! i))"
  using k
proof (induction k)
  case 0
  then show ?case using nc lgc by (simp add: inner_upto_def)
next
  case (Suc k)
  let ?st = "inner_upto m signals w gc v k"
  let ?st' = "inner_step m signals w k ?st"
  let ?g = "\<lambda>i. gc ! i - intensity_cost_derivative (signals ! i) (ctl m v ! i) * cst m w ! i"
  from Suc.prems have kk: "k < num_control_signals m" by simp
  with Suc.IH have ih:
    "length (vector ?st) = length v" "length (gradient ?st) = num_control_signals m"
    "length (cost_gradient ?st) = num_control_signals m"
    "pred m (vector ?st) = pred m v"
    "\<And>i. i < num_control_signals m \<Longrightarrow>
       gradient ?st ! i = (if i < k then ?g i else gc ! i)"
    "\<And>i. i < num_control_signals m \<Longrightarrow>
       ctl m (vector ?st) ! i = (if i < k then ctl m v ! i + udpate_rate m * ?g i else ctl m v ! i)"
    by simp_all
  have fold_suc: "inner_upto m signals w gc v (Suc k) = ?st'"
    by (simp add: inner_upto_def)
  have gk: "gradient ?st ! k = gc ! k" and ck: "ctl m (vector ?st) ! k = ctl m v ! k"
    using ih(5) [OF kk] ih(6) [OF kk] by simp_all
  have g': "gradient ?st' = (gradient ?st) [k := ?g k]"
    using inner_step_gradient [of k ?st m signals w] kk ih(2,3) gk ck by simp
  have v': "vector ?st' = (vector ?st)
      [ctl_start m + k := ctl m v ! k + udpate_rate m * ?g k,
       cst_start m + k := - intensity_cost_function (signals ! k) (ctl m v ! k)]"
    using inner_step_vector [of k ?st m signals w] kk ih(2,3) gk ck by simp
  have lens: "length (vector ?st') = length v" "length (gradient ?st') = num_control_signals m"
    "length (cost_gradient ?st') = num_control_signals m"
    using ih(1,2,3) by (simp_all add: inner_step_length)
  have pr: "pred m (vector ?st') = pred m v"
    unfolding v' using ih(4) ctl_start_ge [of m]
    by (simp add: pred_update cst_start_eq)
  have each: "gradient ?st' ! i = (if i < Suc k then ?g i else gc ! i)
      \<and> ctl m (vector ?st') ! i
          = (if i < Suc k then ctl m v ! i + udpate_rate m * ?g i else ctl m v ! i)"
    if i: "i < num_control_signals m" for i
  proof -
    have lv: "length (vector ?st) = len_prediction_vector m" using ih(1) lenv by simp
    have in_range: "ctl_start m + i < length (vector ?st)"
      using i lv nc
      by (simp add: ctl_start_def intrxn_stop_def len_prediction_vector_def)
    have "ctl m (vector ?st') ! i = vector ?st' ! (ctl_start m + i)"
      using lens(1) lenv i by (simp add: ctl_nth)
    also have "\<dots> = (if i = k then ctl m v ! k + udpate_rate m * ?g k
                       else vector ?st ! (ctl_start m + i))"
      unfolding v' using i in_range by (simp add: nth_list_update cst_start_eq)
    also have "vector ?st ! (ctl_start m + i) = ctl m (vector ?st) ! i"
      using lv i by (simp add: ctl_nth)
    finally have c: "ctl m (vector ?st') ! i
        = (if i = k then ctl m v ! k + udpate_rate m * ?g k else ctl m (vector ?st) ! i)" .
    have g: "gradient ?st' ! i = (if i = k then ?g k else gradient ?st ! i)"
      unfolding g' using i ih(2) by (simp add: nth_list_update)
    from c g ih(5) [OF i] ih(6) [OF i] show ?thesis
      by (auto simp: less_Suc_eq)
  qed
  from lens pr each show ?case
    unfolding fold_suc by blast
qed


lemma sum_list_map2_mult:
  fixes xs ys :: "real list"
  assumes "length xs = n" "length ys = n"
  shows "sum_list (map2 (*) xs ys) = (\<Sum>j < n. xs ! j * ys ! j)"
proof -
  have "sum_list (map2 (*) xs ys) = (\<Sum>j = 0 ..< length (map2 (*) xs ys). map2 (*) xs ys ! j)"
    by (rule sum_list_sum_nth)
  also have "\<dots> = (\<Sum>j = 0 ..< n. xs ! j * ys ! j)"
    using assms by (intro sum.cong) simp_all
  finally show ?thesis by (simp add: atLeast0LessThan)
qed

lemma length_intrxn:
  "length w = len_prediction_vector m \<Longrightarrow>
   length (intrxn m w) = num_predictors m * num_control_signals m"
  by (simp add: intrxn_def intrxn_start_def intrxn_stop_def len_prediction_vector_def
      length_py_slice)

lemma length_pred:
  "length v = len_prediction_vector m \<Longrightarrow> length (pred m v) = num_predictors m"
  by (simp add: pred_def len_prediction_vector_def length_py_slice)

lemma row_in_range:
  assumes "i < (c::nat)"
  shows "i * p + p \<le> p * c"
proof -
  have "i * p + p = Suc i * p" by simp
  also have "\<dots> \<le> c * p" using assms by (intro mult_le_mono1) simp
  finally show ?thesis by (simp add: mult.commute)
qed

lemma gradient_constants_nth:
  assumes "length v0 = len_prediction_vector m" "length w = len_prediction_vector m"
    and i: "i < num_control_signals m"
  shows "gradient_constants m v0 w ! i
     = ctl m w ! i
       + (\<Sum>j < num_predictors m. intrxn m w ! (i * num_predictors m + j) * pred m v0 ! j)"
proof -
  let ?p = "num_predictors m"
  let ?row = "py_slice (intrxn m w) (i * ?p) (i * ?p + ?p)"
  have top: "i * ?p + ?p \<le> length (intrxn m w)"
    using row_in_range [OF i, of ?p] assms(2) by (simp add: length_intrxn)
  then have lrow: "length ?row = ?p" by (simp add: length_py_slice)
  have lpred: "length (pred m v0) = ?p" using assms(1) by (rule length_pred)
  have "sum_list (map2 (*) ?row (pred m v0)) = (\<Sum>j < ?p. ?row ! j * pred m v0 ! j)"
    using lrow lpred by (rule sum_list_map2_mult)
  also have "\<dots> = (\<Sum>j < ?p. intrxn m w ! (i * ?p + j) * pred m v0 ! j)"
    using top by (intro sum.cong) (simp_all add: py_slice_nth)
  finally show ?thesis
    using i by (simp add: gradient_constants_def interaction_weights_x_predictors_def pred_def)
qed

lemma length_gradient_constants: "length (gradient_constants m v0 w) = num_control_signals m"
  by (simp add: gradient_constants_def)

lemma inner_loop_upto:
  "length v = len_prediction_vector m \<Longrightarrow>
   inner_loop m signals w gc v = inner_upto m signals w gc v (num_control_signals m)"
  by (simp add: inner_loop_def inner_upto_def length_ctl)

lemma length_interactions:
  "length (concat (map (\<lambda>c. map (\<lambda>p. p * c) ps) cs)) = length cs * length ps"
  by (induction cs) simp_all

lemma ga_iteration_ctl:
  assumes lv: "length v' = len_prediction_vector m"
  shows "i < num_control_signals m \<Longrightarrow>
         ctl m (assign_slice v' (intrxn_start m)
            (concat (map (\<lambda>c. map (\<lambda>p. p * c) (pred m v')) (ctl m v')))) ! i = ctl m v' ! i"
    and "length (assign_slice v' (intrxn_start m)
            (concat (map (\<lambda>c. map (\<lambda>p. p * c) (pred m v')) (ctl m v')))) = length v'"
    and "pred m (assign_slice v' (intrxn_start m)
            (concat (map (\<lambda>c. map (\<lambda>p. p * c) (pred m v')) (ctl m v')))) = pred m v'"
proof -
  let ?ints = "concat (map (\<lambda>c. map (\<lambda>p. p * c) (pred m v')) (ctl m v'))"
  let ?np = "num_predictors m"
  let ?nc = "num_control_signals m"
  have li: "length ?ints = ?nc * ?np"
    using lv by (simp add: length_interactions length_ctl length_pred)
  have cs: "ctl_start m = ?np + ?nc * ?np"
    by (simp add: ctl_start_def intrxn_stop_def mult.commute)
  have len: "length (assign_slice v' (intrxn_start m) ?ints) = length v'"
    using lv li by (simp add: assign_slice_def intrxn_start_def len_prediction_vector_def)
  show "length (assign_slice v' (intrxn_start m) ?ints) = length v'" by (rule len)
  show "ctl m (assign_slice v' (intrxn_start m) ?ints) ! i = ctl m v' ! i"
    if i: "i < num_control_signals m"
  proof -
    have "ctl m (assign_slice v' (intrxn_start m) ?ints) ! i
        = assign_slice v' (intrxn_start m) ?ints ! (ctl_start m + i)"
      using len lv i by (simp add: ctl_nth)
    also have "\<dots> = v' ! (ctl_start m + i)"
      using lv li i cs
      by (simp add: assign_slice_def intrxn_start_def nth_append len_prediction_vector_def)
    also have "\<dots> = ctl m v' ! i"
      using lv i by (simp add: ctl_nth)
    finally show ?thesis .
  qed
  show "pred m (assign_slice v' (intrxn_start m) ?ints) = pred m v'"
    using lv by (simp add: assign_slice_def intrxn_start_def pred_def py_slice_def
        len_prediction_vector_def)
qed


lemma vector_after_0: "vector_after E F m signals pv w 0 = pv"
  by (simp add: vector_after_def ga_after_def)

lemma vector_after_Suc:
  "vector_after E F m signals pv w (Suc t)
     = ga_iteration m signals w (gradient_constants m pv w) (vector_after E F m signals pv w t)"
  by (simp add: vector_after_def ga_after_def ga_step_def split: prod.splits)

lemma ga_iteration_facts:
  assumes ws: "well_shaped m signals w"
    and lv: "length v = len_prediction_vector m"
    and lgc: "length gc = num_control_signals m"
  shows "length (ga_iteration m signals w gc v) = length v"
    and "pred m (ga_iteration m signals w gc v) = pred m v"
    and "i < num_control_signals m \<Longrightarrow>
         gradient (inner_loop m signals w gc v) ! i
           = gc ! i - intensity_cost_derivative (signals ! i) (ctl m v ! i) * cst m w ! i"
    and "i < num_control_signals m \<Longrightarrow>
         ctl m (ga_iteration m signals w gc v) ! i
           = ctl m v ! i + udpate_rate m * gradient (inner_loop m signals w gc v) ! i"
proof -
  let ?st = "inner_loop m signals w gc v"
  from ws have nc: "num_costs m = num_control_signals m" by (simp add: well_shaped_def)
  have st: "?st = inner_upto m signals w gc v (num_control_signals m)"
    using lv by (rule inner_loop_upto)
  from inner_prefix [OF lv nc lgc order_refl, of signals w] have inv:
    "length (vector ?st) = length v"
    "pred m (vector ?st) = pred m v"
    "\<And>i. i < num_control_signals m \<Longrightarrow>
       gradient ?st ! i = gc ! i - intensity_cost_derivative (signals ! i) (ctl m v ! i) * cst m w ! i"
    "\<And>i. i < num_control_signals m \<Longrightarrow>
       ctl m (vector ?st) ! i
         = ctl m v ! i
           + udpate_rate m
             * (gc ! i - intensity_cost_derivative (signals ! i) (ctl m v ! i) * cst m w ! i)"
    unfolding st by simp_all
  have lst: "length (vector ?st) = len_prediction_vector m" using inv(1) lv by simp
  show "length (ga_iteration m signals w gc v) = length v"
    using ga_iteration_ctl(2) [OF lst] inv(1) by (simp add: ga_iteration_def Let_def)
  show "pred m (ga_iteration m signals w gc v) = pred m v"
    using ga_iteration_ctl(3) [OF lst] inv(2) by (simp add: ga_iteration_def Let_def)
  show "gradient ?st ! i
           = gc ! i - intensity_cost_derivative (signals ! i) (ctl m v ! i) * cst m w ! i"
    if "i < num_control_signals m"
    using inv(3) [OF that] .
  show "ctl m (ga_iteration m signals w gc v) ! i = ctl m v ! i + udpate_rate m * gradient ?st ! i"
    if "i < num_control_signals m"
    using ga_iteration_ctl(1) [OF lst that] inv(3) [OF that] inv(4) [OF that]
    by (simp add: ga_iteration_def Let_def)
qed

lemma vector_after_shape:
  assumes "well_shaped m signals w" "length pv = len_prediction_vector m"
  shows "length (vector_after E F m signals pv w t) = len_prediction_vector m
       \<and> pred m (vector_after E F m signals pv w t) = pred m pv"
proof (induction t)
  case 0
  then show ?case using assms by (simp add: vector_after_0)
next
  case (Suc t)
  then show ?case
    using ga_iteration_facts(1,2) [OF assms(1) _ length_gradient_constants]
    by (simp add: vector_after_Suc)
qed

text \<open>
  C5. In every pass \<open>t\<close> of gradient ascent and for every control signal \<open>i\<close>, the
  gradient is the signal's weight plus the sum of its interaction weights times the
  predictors, minus the derivative of its intensity-cost function at the signal's current
  value times its cost weight; and the pass moves the signal by \<open>udpate_rate\<close> times that
  gradient.
\<close>

theorem gradient_ascent_update:
  assumes "well_shaped m signals w"
    and "length pv = len_prediction_vector m"
    and "i < num_control_signals m"
  shows "(let before = vector_after EPSILON float128_max m signals pv w t;
              g = gradient (inner_loop m signals w (gradient_constants m pv w) before) ! i
          in g = ctl m w ! i
                 + (\<Sum>j < num_predictors m.
                      intrxn m w ! (i * num_predictors m + j) * pred m pv ! j)
                 - intensity_cost_derivative (signals ! i) (ctl m before ! i) * cst m w ! i
           \<and> ctl m (vector_after EPSILON float128_max m signals pv w (Suc t)) ! i
               = ctl m before ! i + udpate_rate m * g)"
proof -
  let ?before = "vector_after EPSILON float128_max m signals pv w t"
  let ?gc = "gradient_constants m pv w"
  have lb: "length ?before = len_prediction_vector m"
    using vector_after_shape [OF assms(1,2)] by simp
  have lw: "length w = len_prediction_vector m"
    using assms(1) by (simp add: well_shaped_def)
  note facts = ga_iteration_facts(3,4) [OF assms(1) lb length_gradient_constants assms(3)]
  have "gradient (inner_loop m signals w ?gc ?before) ! i
      = ctl m w ! i
        + (\<Sum>j < num_predictors m. intrxn m w ! (i * num_predictors m + j) * pred m pv ! j)
        - intensity_cost_derivative (signals ! i) (ctl m ?before ! i) * cst m w ! i"
    using facts(1) [of pv] gradient_constants_nth [OF assms(2) lw assms(3)] by simp
  moreover have "ctl m (vector_after EPSILON float128_max m signals pv w (Suc t)) ! i
      = ctl m ?before ! i
        + udpate_rate m * gradient (inner_loop m signals w ?gc ?before) ! i"
    using facts(2) [of pv] by (simp add: vector_after_Suc)
  ultimately show ?thesis by (simp add: Let_def)
qed

subsection \<open>Two runs\<close>

text \<open>
  Two predictors and one control signal with a quadratic cost. With an update rate of
  \<open>1/10\<close> and \<open>max_iterations = 3\<close> the search gives up after four passes with a warning;
  with an update rate of \<open>0\<close> nothing moves and the second pass converges.
\<close>

definition quadratic_cost :: lvoc_signal where
  "quadratic_cost =
     \<lparr>intensity_cost_function = (\<lambda>x. x * x), intensity_cost_derivative = (\<lambda>x. 2 * x)\<rparr>"

definition slow_mechanism :: lvoc_mechanism where
  "slow_mechanism =
     \<lparr>num_predictors = 2, num_control_signals = 1, num_costs = 1,
      convergence_criterion = 1 / 100, max_iterations = 3, udpate_rate = 1 / 10\<rparr>"

definition still_mechanism :: lvoc_mechanism where
  "still_mechanism = slow_mechanism\<lparr>max_iterations := 5, udpate_rate := 0\<rparr>"

lemma slow_run:
  "gradient_ascent (1 / 1000) 1000000 slow_mechanism [quadratic_cost]
       [1, 2, 0, 0, 1, 0] [0, 0, 3, 4, 5, 1]
     = \<lparr>control_signal_values = [3208 / 625],
        final_vector = [1, 2, 3208 / 625, 6416 / 625, 3208 / 625, - (304704 / 15625)],
        iterations = 4, warned = True\<rparr>"
  by code_simp

lemma still_run:
  "gradient_ascent (1 / 1000) 1000000 still_mechanism [quadratic_cost]
       [1, 2, 0, 0, 1, 0] [0, 0, 3, 4, 5, 1]
     = \<lparr>control_signal_values = [1], final_vector = [1, 2, 1, 2, 1, - 1],
        iterations = 2, warned = False\<rparr>"
  by code_simp


theorem gradient_ascent_terminates_witness:
  "iterations (gradient_ascent (1 / 1000) 1000000 slow_mechanism [quadratic_cost]
       [1, 2, 0, 0, 1, 0] [0, 0, 3, 4, 5, 1]) = 4
   \<and> warned (gradient_ascent (1 / 1000) 1000000 slow_mechanism [quadratic_cost]
       [1, 2, 0, 0, 1, 0] [0, 0, 3, 4, 5, 1])
   \<and> max_iterations slow_mechanism = 3
   \<and> metric_after (1 / 1000) 1000000 slow_mechanism [quadratic_cost]
       [1, 2, 0, 0, 1, 0] [0, 0, 3, 4, 5, 1] 3 > 1 / 100
   \<and> iterations (gradient_ascent (1 / 1000) 1000000 still_mechanism [quadratic_cost]
       [1, 2, 0, 0, 1, 0] [0, 0, 3, 4, 5, 1]) = 2
   \<and> \<not> warned (gradient_ascent (1 / 1000) 1000000 still_mechanism [quadratic_cost]
       [1, 2, 0, 0, 1, 0] [0, 0, 3, 4, 5, 1])
   \<and> metric_after (1 / 1000) 1000000 still_mechanism [quadratic_cost]
       [1, 2, 0, 0, 1, 0] [0, 0, 3, 4, 5, 1] 2 \<le> 1 / 100"
proof -
  let ?pv = "[1, 2, 0, 0, 1, 0 :: real]"
  let ?w = "[0, 0, 3, 4, 5, 1 :: real]"
  have eps: "(0::real) < 1 / 1000" by simp
  have fields: "max_iterations slow_mechanism = 3" "convergence_criterion slow_mechanism = 1 / 100"
    "max_iterations still_mechanism = 5" "convergence_criterion still_mechanism = 1 / 100"
    by (simp_all add: slow_mechanism_def still_mechanism_def)
  note slow_thm = gradient_ascent_terminates
    [OF eps, of 1000000 slow_mechanism "[quadratic_cost]" ?pv ?w]
  note still_thm = gradient_ascent_terminates
    [OF eps, of 1000000 still_mechanism "[quadratic_cost]" ?pv ?w]
  let ?slow = "gradient_ascent (1 / 1000) 1000000 slow_mechanism [quadratic_cost] ?pv ?w"
  let ?still = "gradient_ascent (1 / 1000) 1000000 still_mechanism [quadratic_cost] ?pv ?w"
  have "\<forall>t. 1 \<le> t \<and> t < iterations ?slow
      \<longrightarrow> metric_after (1 / 1000) 1000000 slow_mechanism [quadratic_cost] ?pv ?w t
            > convergence_criterion slow_mechanism \<and> int t \<le> max_iterations slow_mechanism"
    using slow_thm unfolding Let_def by blast
  then have "1 \<le> (3::nat) \<and> 3 < iterations ?slow
      \<longrightarrow> metric_after (1 / 1000) 1000000 slow_mechanism [quadratic_cost] ?pv ?w 3
            > convergence_criterion slow_mechanism"
    by blast
  then have slow: "metric_after (1 / 1000) 1000000 slow_mechanism [quadratic_cost] ?pv ?w 3
      > 1 / 100"
    by (simp add: slow_run fields)
  have "\<not> warned ?still
      \<longrightarrow> metric_after (1 / 1000) 1000000 still_mechanism [quadratic_cost] ?pv ?w
            (iterations ?still) \<le> convergence_criterion still_mechanism"
    using still_thm unfolding Let_def by blast
  then have still: "metric_after (1 / 1000) 1000000 still_mechanism [quadratic_cost] ?pv ?w 2
      \<le> 1 / 100"
    by (simp add: still_run fields)
  from slow still show ?thesis
    unfolding slow_run still_run fields by simp
qed

lemma example_well_shaped: "well_shaped slow_mechanism [quadratic_cost] [0, 0, 3, 4, 5, 1]"
  by (simp add: well_shaped_def slow_mechanism_def len_prediction_vector_def)

theorem gradient_ascent_update_witness:
  "well_shaped slow_mechanism [quadratic_cost] [0, 0, 3, 4, 5, 1]
   \<and> gradient (inner_loop slow_mechanism [quadratic_cost] [0, 0, 3, 4, 5, 1]
        (gradient_constants slow_mechanism [1, 2, 0, 0, 1, 0] [0, 0, 3, 4, 5, 1])
        [1, 2, 0, 0, 1, 0]) ! 0 = 5 + (3 * 1 + 4 * 2) - 2 * 1 * 1
   \<and> ctl slow_mechanism (vector_after (1 / 1000) 1000000 slow_mechanism [quadratic_cost]
        [1, 2, 0, 0, 1, 0] [0, 0, 3, 4, 5, 1] (Suc 0)) ! 0 = 1 + 1 / 10 * 14"
proof -
  have len: "length [1, 2, 0, 0, 1, 0 :: real] = len_prediction_vector slow_mechanism"
    by (simp add: slow_mechanism_def len_prediction_vector_def)
  have i: "0 < num_control_signals slow_mechanism"
    by (simp add: slow_mechanism_def)
  have slices: "ctl slow_mechanism [0, 0, 3, 4, 5, 1 :: real] = [5]"
    "intrxn slow_mechanism [0, 0, 3, 4, 5, 1 :: real] = [3, 4]"
    "cst slow_mechanism [0, 0, 3, 4, 5, 1 :: real] = [1]"
    "pred slow_mechanism [1, 2, 0, 0, 1, 0 :: real] = [1, 2]"
    "ctl slow_mechanism [1, 2, 0, 0, 1, 0 :: real] = [1]"
    by (simp_all add: ctl_def intrxn_def cst_def pred_def py_slice_def ctl_start_def ctl_stop_def
        cst_start_def intrxn_start_def intrxn_stop_def len_prediction_vector_def
        slow_mechanism_def)
  have fields: "num_predictors slow_mechanism = 2" "udpate_rate slow_mechanism = 1 / 10"
    "\<And>x. intensity_cost_derivative quadratic_cost x = 2 * x"
    by (simp_all add: slow_mechanism_def quadratic_cost_def)
  have total: "(\<Sum>j < 2. [3, 4 :: real] ! j * [1, 2] ! j) = 11"
    by (simp add: eval_nat_numeral)
  note th = gradient_ascent_update [OF example_well_shaped len i, of "1 / 1000" 1000000 0]
  have g: "gradient (inner_loop slow_mechanism [quadratic_cost] [0, 0, 3, 4, 5, 1]
        (gradient_constants slow_mechanism [1, 2, 0, 0, 1, 0] [0, 0, 3, 4, 5, 1])
        [1, 2, 0, 0, 1, 0]) ! 0 = 5 + (3 * 1 + 4 * 2) - 2 * 1 * 1"
    using th unfolding Let_def vector_after_0 slices by (simp add: fields total)
  have c: "ctl slow_mechanism (vector_after (1 / 1000) 1000000 slow_mechanism [quadratic_cost]
        [1, 2, 0, 0, 1, 0] [0, 0, 3, 4, 5, 1] (Suc 0)) ! 0 = 1 + 1 / 10 * 14"
    using th unfolding Let_def vector_after_0 slices by (simp add: fields total)
  from g c example_well_shaped show ?thesis by simp
qed

section \<open>Net outcome and the scoring of the searches\<close>











section \<open>The controller's simulations\<close>

text \<open>
  \<open>Controller.run_simulation\<close>, \<open>run_simulations\<close> and \<open>_execute\<close> (\<open>controller.py\<close>). The
  composition is not among the sources: what its class holds is a type parameter, and the
  methods that the controller calls are the fields of \<open>composition_ops\<close>, together with
  \<open>_update_output_states\<close>, which the controller inherits from a class outside the
  sources and which hands the control signals to the composition (\<open>runtime_params\<close> and
  \<open>context\<close> are passed through untouched and are part of \<open>run\<close> and
  \<open>update_output_states\<close>). What the methods of the controller themselves read and write
  is the record \<open>controller\<close>.
\<close>

type_synonym node = string
type_synonym inputs = "(node \<times> real list) list"
type_synonym predicted_input = "(node \<times> real list list) list"
type_synonym output_values = "real list list"

datatype phase = PROCESSING | SIMULATION | IDLE

text \<open>
  An allocation policy as \<open>run_simulation\<close> can receive it: \<open>None\<close> (the default), a
  Python list, or a row of the two-dimensional numpy array that \<open>_execute\<close> iterates.
\<close>

datatype policy = NoPolicy | ListPolicy "real list" | ArrayPolicy "real list"

text \<open>
  \<open>other_simulation_data.append(other_simulation_data)\<close> appends the list to itself; an
  entry of it is this placeholder.
\<close>

datatype sim_datum = SelfReference

text \<open>
  The composition object. Two of its attributes are written by the controller:
  \<open>context.execution_phase\<close> and the list \<open>simulation_results\<close>. Everything else it holds
  is \<open>internals\<close>. Its own methods receive and return the whole object, so they may
  change these two attributes as well.
\<close>

record 'c composition =
  internals :: 'c
  execution_phase :: phase
  simulation_results :: "output_values list"

record 'c composition_ops =
  get_unique_id :: "'c composition \<Rightarrow> execution_id \<times> 'c composition"
  run :: "inputs \<Rightarrow> inputs \<Rightarrow> execution_id \<Rightarrow> 'c composition \<Rightarrow> pyexn + 'c composition"
  output_CIM_output_values :: "'c composition \<Rightarrow> output_values"
  objective_output_values :: "'c composition \<Rightarrow> output_values"
  update_output_states :: "real list list option \<Rightarrow> 'c composition \<Rightarrow> 'c composition"
  node_values :: "'c composition \<Rightarrow> inputs"
  before_simulations ::
    "'c composition \<Rightarrow> (predicted_input \<times> nat \<times> inputs \<times> inputs) \<times> 'c composition"
  after_simulations :: "inputs \<Rightarrow> inputs \<Rightarrow> 'c composition \<Rightarrow> 'c composition"

text \<open>
  \<open>self_value\<close> is \<open>self.value\<close>. When it is \<open>None\<close>, \<open>apply_control_signal_values\<close> binds
  it to \<open>self.instance_defaults.value\<close> itself, not to a copy, so that later item
  assignments write both: \<open>value_is_defaults\<close> records that aliasing. \<open>comp\<close> is
  \<open>self.composition\<close>, and \<open>efferent_phases\<close> the execution phases of the projections
  that leave the controller's output states.
\<close>

record 'c controller =
  self_value :: "real list list option"
  instance_defaults_value :: "real list list"
  value_is_defaults :: bool
  allocation_samples :: "real list list"
  control_signal_search_space :: "real list list"
  comp :: "'c composition"
  efferent_phases :: "phase list"

text \<open>
  The truth value that \<open>if allocation_policy:\<close> tests. A numpy array with more than one
  element has none and raises \<open>ValueError\<close>; a one-element array is true when its element
  is not zero; an empty array or list and \<open>None\<close> are false.
\<close>

fun py_truth :: "policy \<Rightarrow> pyexn + bool" where
  "py_truth NoPolicy = Inr False"
| "py_truth (ListPolicy xs) = Inr (xs \<noteq> [])"
| "py_truth (ArrayPolicy []) = Inr False"
| "py_truth (ArrayPolicy [x]) = Inr (x \<noteq> 0)"
| "py_truth (ArrayPolicy (x # y # zs)) = Inl ValueError"

fun policy_items :: "policy \<Rightarrow> real list" where
  "policy_items NoPolicy = []"
| "policy_items (ListPolicy xs) = xs"
| "policy_items (ArrayPolicy xs) = xs"

text \<open>
  The loop of \<open>apply_control_signal_values\<close>: \<open>self.value[i] = np.atleast_1d(...)\<close>, an
  \<open>IndexError\<close> beyond the end of \<open>self.value\<close>; then \<open>_update_output_states\<close>.
\<close>

fun assign_values :: "real list \<Rightarrow> nat \<Rightarrow> ('c, 'z) controller_scheme \<Rightarrow> pyexn + ('c, 'z) controller_scheme" where
  "assign_values [] i st = Inr st"
| "assign_values (x # xs) i st =
     (let st1 = (if self_value st = None
                 then st\<lparr>self_value := Some (instance_defaults_value st), value_is_defaults := True\<rparr>
                 else st)
      in case self_value st1 of
           None \<Rightarrow> Inl TypeError
         | Some v \<Rightarrow>
             if i < length v
             then assign_values xs (Suc i)
                    (st1\<lparr>self_value := Some (v[i := [x]]),
                         instance_defaults_value :=
                           (if value_is_defaults st1 then (instance_defaults_value st1)[i := [x]]
                            else instance_defaults_value st1)\<rparr>)
             else Inl IndexError)"

definition apply_control_signal_values ::
    "'c composition_ops \<Rightarrow> real list \<Rightarrow> 'c controller \<Rightarrow> pyexn + 'c controller" where
  "apply_control_signal_values ops signal_values st =
     (case assign_values signal_values 0 st of
        Inl e \<Rightarrow> Inl e
      | Inr st' \<Rightarrow> Inr (st'\<lparr>comp := update_output_states ops (self_value st') (comp st')\<rparr>))"

text \<open>\<open>inputs[node] = predicted_input[node][i]\<close> for every node of the dictionary.\<close>

fun trial_inputs :: "predicted_input \<Rightarrow> nat \<Rightarrow> pyexn + inputs" where
  "trial_inputs [] i = Inr []"
| "trial_inputs ((nd, per_trial) # rest) i =
     (if i < length per_trial
      then (case trial_inputs rest i of
              Inl e \<Rightarrow> Inl e
            | Inr ins \<Rightarrow> Inr ((nd, per_trial ! i) # ins))
      else Inl IndexError)"

text \<open>
  One pass of the \<open>for i in range(num_trials)\<close> loop: the phases are set, the composition
  runs, \<open>self.composition.output_CIM.output_values\<close> is appended to
  \<open>self.composition.simulation_results\<close>, the callback is called, the monitored outputs
  are read and the composition's phase is set back. An exception of \<open>composition.run\<close> (or
  of the callback) is not caught anywhere in the method.
\<close>

definition simulate_trial ::
    "'c composition_ops \<Rightarrow> inputs \<Rightarrow> predicted_input
      \<Rightarrow> ('c composition \<Rightarrow> pyexn + 'c composition) option
      \<Rightarrow> execution_id \<Rightarrow> nat \<Rightarrow> 'c controller \<Rightarrow> pyexn + (output_values \<times> 'c controller)" where
  "simulate_trial ops reinitialize_values predicted call_after_simulation eid i st =
     (case trial_inputs predicted i of
        Inl e \<Rightarrow> Inl e
      | Inr ins \<Rightarrow>
         (let st1 = st\<lparr>comp := (comp st)\<lparr>execution_phase := SIMULATION\<rparr>,
                        efferent_phases := map (\<lambda>_. PROCESSING) (efferent_phases st)\<rparr>
          in case run ops ins reinitialize_values eid (comp st1) of
               Inl e \<Rightarrow> Inl e
             | Inr c2 \<Rightarrow>
                (let c2' = c2\<lparr>simulation_results :=
                                simulation_results c2 @ [output_CIM_output_values ops c2]\<rparr>
                 in case (case call_after_simulation of
                            None \<Rightarrow> Inr c2'
                          | Some f \<Rightarrow> f c2') of
                      Inl e \<Rightarrow> Inl e
                    | Inr c3 \<Rightarrow>
                        Inr (objective_output_values ops c3,
                             st1\<lparr>comp := c3\<lparr>execution_phase := PROCESSING\<rparr>\<rparr>))))"

fun simulate_trials ::
    "'c composition_ops \<Rightarrow> inputs \<Rightarrow> predicted_input
      \<Rightarrow> ('c composition \<Rightarrow> pyexn + 'c composition) option
      \<Rightarrow> execution_id \<Rightarrow> nat list \<Rightarrow> 'c controller
      \<Rightarrow> pyexn + ((output_values list \<times> sim_datum list) \<times> 'c controller)" where
  "simulate_trials ops reinitialize_values predicted call_after_simulation eid [] st =
     Inr (([], []), st)"
| "simulate_trials ops reinitialize_values predicted call_after_simulation eid (i # rest) st =
     (case simulate_trial ops reinitialize_values predicted call_after_simulation eid i st of
        Inl e \<Rightarrow> Inl e
      | Inr (monitored_states, st3) \<Rightarrow>
         (case simulate_trials ops reinitialize_values predicted call_after_simulation eid
                 rest st3 of
            Inl e \<Rightarrow> Inl e
          | Inr ((outcomes, other), st4) \<Rightarrow>
              Inr ((monitored_states # outcomes, SelfReference # other), st4)))"

definition run_simulation ::
    "'c composition_ops \<Rightarrow> policy \<Rightarrow> nat \<Rightarrow> inputs \<Rightarrow> predicted_input
      \<Rightarrow> ('c composition \<Rightarrow> pyexn + 'c composition) option \<Rightarrow> 'c controller
      \<Rightarrow> pyexn + ((output_values list \<times> sim_datum list) \<times> 'c controller)" where
  "run_simulation ops allocation_policy num_trials reinitialize_values predicted
       call_after_simulation st =
     (case py_truth allocation_policy of
        Inl e \<Rightarrow> Inl e
      | Inr truthy \<Rightarrow>
         (case (if truthy
                then apply_control_signal_values ops (policy_items allocation_policy) st
                else Inr st) of
            Inl e \<Rightarrow> Inl e
          | Inr st1 \<Rightarrow>
             (case get_unique_id ops (comp st1) of
                (eid, c1) \<Rightarrow>
                  simulate_trials ops reinitialize_values predicted call_after_simulation eid
                    [0 ..< num_trials] (st1\<lparr>comp := c1\<rparr>))))"

text \<open>
  \<open>run_simulations\<close>: \<open>before_simulations\<close>, one \<open>run_simulation\<close> per policy in order,
  \<open>after_simulations\<close> with what \<open>before_simulations\<close> returned.
\<close>

type_synonym outcome = "policy \<times> output_values list \<times> sim_datum list"

fun simulate_all ::
    "'c composition_ops \<Rightarrow> nat \<Rightarrow> inputs \<Rightarrow> predicted_input
      \<Rightarrow> ('c composition \<Rightarrow> pyexn + 'c composition) option
      \<Rightarrow> policy list \<Rightarrow> 'c controller \<Rightarrow> pyexn + (outcome list \<times> 'c controller)" where
  "simulate_all ops num_trials reinitialize_values predicted call_after_simulation [] st =
     Inr ([], st)"
| "simulate_all ops num_trials reinitialize_values predicted call_after_simulation (p # ps) st =
     (case run_simulation ops p num_trials reinitialize_values predicted
             call_after_simulation st of
        Inl e \<Rightarrow> Inl e
      | Inr ((outcomes, other), st1) \<Rightarrow>
         (case simulate_all ops num_trials reinitialize_values predicted
                 call_after_simulation ps st1 of
            Inl e \<Rightarrow> Inl e
          | Inr (outcome_list, st2) \<Rightarrow> Inr ((p, outcomes, other) # outcome_list, st2)))"

definition run_simulations ::
    "'c composition_ops \<Rightarrow> ('c composition \<Rightarrow> pyexn + 'c composition) option
      \<Rightarrow> 'c controller \<Rightarrow> policy list \<Rightarrow> pyexn + (outcome list \<times> 'c controller)" where
  "run_simulations ops call_after_simulation st allocation_policies =
     (case before_simulations ops (comp st) of
        ((predicted, num_trials, reinitialize_values, saved_node_values), c0) \<Rightarrow>
          (case simulate_all ops num_trials reinitialize_values predicted call_after_simulation
                  allocation_policies (st\<lparr>comp := c0\<rparr>) of
             Inl e \<Rightarrow> Inl e
           | Inr (outcome_list, st1) \<Rightarrow>
               Inr (outcome_list,
                    st1\<lparr>comp := after_simulations ops reinitialize_values saved_node_values
                                   (comp st1)\<rparr>)))"

text \<open>
  \<open>_execute\<close>: the search space, the simulations of all its rows, and the controller's
  \<open>function\<close>, called as \<open>self.function(self=self, simulation_data=simulation_data,
  context=context)\<close>: it receives the controller itself with the simulation data, and
  returns the allocation policy (or raises).
\<close>

definition execute ::
    "'c composition_ops
      \<Rightarrow> ('c controller \<Rightarrow> outcome list \<Rightarrow> pyexn + (policy \<times> 'c controller))
      \<Rightarrow> 'c controller \<Rightarrow> pyexn + (policy \<times> 'c controller)" where
  "execute ops search_function st =
     (case get_allocation_policies (allocation_samples st) of
        Inl e \<Rightarrow> Inl e
      | Inr space \<Rightarrow>
         (case run_simulations ops None (st\<lparr>control_signal_search_space := space\<rparr>)
                 (map ArrayPolicy space) of
            Inl e \<Rightarrow> Inl e
          | Inr (simulation_data, st1) \<Rightarrow>
             (case search_function st1 simulation_data of
                Inl e \<Rightarrow> Inl e
              | Inr (allocation_policy, st2) \<Rightarrow> Inr (allocation_policy, st2))))"

subsection \<open>A small composition\<close>

text \<open>
  One control signal and one node whose activity becomes the signal when the composition
  runs; running with an allocation above \<open>0.9\<close> raises. One trial per simulation.
\<close>

record toy =
  signal :: real
  activity :: real
  next_id :: nat

definition toy_ops :: "toy composition_ops" where
  "toy_ops =
     \<lparr>get_unique_id =
        (\<lambda>c. (''sim-'' @ str_nat (next_id (internals c)),
              c\<lparr>internals := (internals c)\<lparr>next_id := Suc (next_id (internals c))\<rparr>\<rparr>)),
      run = (\<lambda>ins reinit eid c.
               if signal (internals c) > 9 / 10 then Inl (AgentError ''allocation above 0.9'')
               else Inr (c\<lparr>internals := (internals c)\<lparr>activity := signal (internals c)\<rparr>\<rparr>)),
      output_CIM_output_values = (\<lambda>c. [[activity (internals c)]]),
      objective_output_values = (\<lambda>c. [[activity (internals c)]]),
      update_output_states =
        (\<lambda>v c. case v of
                 Some ([x] # _) \<Rightarrow> c\<lparr>internals := (internals c)\<lparr>signal := x\<rparr>\<rparr>
               | _ \<Rightarrow> c),
      node_values = (\<lambda>c. [(''node'', [activity (internals c)])]),
      before_simulations =
        (\<lambda>c. (([(''origin'', [[1]])], 1, [], [(''node'', [activity (internals c)])]), c)),
      after_simulations =
        (\<lambda>reinit saved c. case saved of
                             [(_, [a])] \<Rightarrow> c\<lparr>internals := (internals c)\<lparr>activity := a\<rparr>\<rparr>
                           | _ \<Rightarrow> c)\<rparr>"

definition toy_controller :: "toy controller" where
  "toy_controller =
     \<lparr>self_value = None, instance_defaults_value = [[1]], value_is_defaults = False,
      allocation_samples = [[1 / 2, 1]], control_signal_search_space = [],
      comp = \<lparr>internals = \<lparr>signal = 0, activity = 0, next_id = 0\<rparr>,
              execution_phase = IDLE, simulation_results = []\<rparr>,
      efferent_phases = [IDLE]\<rparr>"


subsection \<open>What the simulations change\<close>

lemma simulate_all_append_fail:
  assumes "simulate_all ops nt reinit predicted cas pre st = Inr (finished, st1)"
    and "run_simulation ops p nt reinit predicted cas st1 = Inl e"
  shows "simulate_all ops nt reinit predicted cas (pre @ p # post) st = Inl e"
  using assms
proof (induction pre arbitrary: st finished)
  case Nil
  then show ?case by simp
next
  case (Cons q pre)
  from Cons.prems(1) obtain r st' rest where
    q: "run_simulation ops q nt reinit predicted cas st = Inr (r, st')"
    and rest: "simulate_all ops nt reinit predicted cas pre st' = Inr (rest, st1)"
    by (auto split: sum.splits prod.splits)
  from Cons.IH [OF rest Cons.prems(2)] q show ?case
    by (simp split: prod.splits)
qed

lemma assign_values_frame:
  "assign_values xs i st = Inr st' \<Longrightarrow>
   comp st' = comp st
   \<and> allocation_samples st' = allocation_samples st
   \<and> control_signal_search_space st' = control_signal_search_space st"
proof (induction xs i st rule: assign_values.induct)
  case (1 i st)
  then show ?case by simp
next
  case (2 x xs i st)
  then show ?case
    by (auto simp: Let_def split: option.splits if_splits)
qed

lemma simulate_trial_frame:
  "simulate_trial ops reinit predicted cas eid i st = Inr (monitored, st') \<Longrightarrow>
   allocation_samples st' = allocation_samples st
   \<and> control_signal_search_space st' = control_signal_search_space st
   \<and> self_value st' = self_value st
   \<and> execution_phase (comp st') = PROCESSING"
  by (auto simp: simulate_trial_def Let_def split: sum.splits option.splits)

lemma simulate_trials_frame:
  "simulate_trials ops reinit predicted cas eid trials st = Inr ((outcomes, other), st') \<Longrightarrow>
   length outcomes = length trials
   \<and> allocation_samples st' = allocation_samples st
   \<and> control_signal_search_space st' = control_signal_search_space st
   \<and> self_value st' = self_value st
   \<and> (trials \<noteq> [] \<longrightarrow> execution_phase (comp st') = PROCESSING)"
proof (induction trials arbitrary: st outcomes other)
  case Nil
  then show ?case by simp
next
  case (Cons i trials)
  from Cons.prems obtain monitored st3 outs' other' where
    one: "simulate_trial ops reinit predicted cas eid i st = Inr (monitored, st3)"
    and rest: "simulate_trials ops reinit predicted cas eid trials st3 = Inr ((outs', other'), st')"
    and outs: "outcomes = monitored # outs'"
    by (auto split: sum.splits prod.splits)
  note st3 = simulate_trial_frame [OF one]
  note new = Cons.IH [OF rest]
  have phase: "execution_phase (comp st') = PROCESSING"
  proof (cases trials)
    case Nil
    with rest st3 show ?thesis by simp
  next
    case (Cons a list)
    with new show ?thesis by simp
  qed
  from outs new st3 phase show ?case by simp
qed


lemma apply_frame:
  assumes "apply_control_signal_values ops xs st = Inr st'"
  shows "allocation_samples st' = allocation_samples st
       \<and> control_signal_search_space st' = control_signal_search_space st
       \<and> (\<exists>v. comp st' = update_output_states ops v (comp st))"
  using assms assign_values_frame [of xs 0 st]
  by (auto simp: apply_control_signal_values_def split: sum.splits)

lemma run_simulation_frame:
  assumes "run_simulation ops p nt reinit predicted cas st = Inr ((outcomes, other), st')"
  shows "length outcomes = nt
       \<and> allocation_samples st' = allocation_samples st
       \<and> control_signal_search_space st' = control_signal_search_space st"
proof -
  from assms obtain truthy st1 eid c1 where
    ap: "(if truthy then apply_control_signal_values ops (policy_items p) st else Inr st)
           = Inr st1"
    and tr: "simulate_trials ops reinit predicted cas eid [0 ..< nt] (st1\<lparr>comp := c1\<rparr>)
           = Inr ((outcomes, other), st')"
    by (auto simp: run_simulation_def split: sum.splits prod.splits)
  have st1: "allocation_samples st1 = allocation_samples st
       \<and> control_signal_search_space st1 = control_signal_search_space st"
    using ap apply_frame [of ops "policy_items p" st st1] by (cases truthy) auto
  from simulate_trials_frame [OF tr] st1 show ?thesis by simp
qed


lemma simulate_all_frame:
  "simulate_all ops nt reinit predicted cas ps st = Inr (outcome_list, st') \<Longrightarrow>
   map fst outcome_list = ps
   \<and> allocation_samples st' = allocation_samples st
   \<and> control_signal_search_space st' = control_signal_search_space st"
proof (induction ps arbitrary: st outcome_list)
  case Nil
  then show ?case by simp
next
  case (Cons p ps)
  from Cons.prems obtain outcomes other st1 rest where
    one: "run_simulation ops p nt reinit predicted cas st = Inr ((outcomes, other), st1)"
    and more: "simulate_all ops nt reinit predicted cas ps st1 = Inr (rest, st')"
    and ol: "outcome_list = (p, outcomes, other) # rest"
    by (auto split: sum.splits prod.splits)
  from run_simulation_frame [OF one] Cons.IH [OF more] ol show ?case by simp
qed


subsection \<open>A simulation that raises\<close>

text \<open>
  C1, as the code has it. An exception raised by the composition during a trial is
  raised by the trial loop; an exception raised by the simulation of one candidate is
  raised by \<open>run_simulations\<close>, whatever candidates come after it; and \<open>_execute\<close> raises
  what \<open>run_simulations\<close> raises. No candidate is given a net value of minus infinity and
  no policy is returned.
\<close>

theorem simulation_failure_propagates:
  "(trial_inputs predicted i = Inr ins
      \<and> run ops ins reinit eid ((comp st)\<lparr>execution_phase := SIMULATION\<rparr>) = Inl e
      \<longrightarrow> simulate_trials ops reinit predicted cas eid (i # rest) st = Inl e)
   \<and> (before_simulations ops (comp st0) = ((predicted, nt, reinit, saved), c0)
        \<and> simulate_all ops nt reinit predicted cas pre (st0\<lparr>comp := c0\<rparr>) = Inr (finished, st1)
        \<and> run_simulation ops p nt reinit predicted cas st1 = Inl e
      \<longrightarrow> run_simulations ops cas st0 (pre @ p # post) = Inl e)
   \<and> (get_allocation_policies (allocation_samples st2) = Inr space
        \<and> run_simulations ops None (st2\<lparr>control_signal_search_space := space\<rparr>)
              (map ArrayPolicy space) = Inl e
      \<longrightarrow> execute ops search_function st2 = Inl e)"
proof -
  have trial: "simulate_trials ops reinit predicted cas eid (i # rest) st = Inl e"
    if "trial_inputs predicted i = Inr ins"
      "run ops ins reinit eid ((comp st)\<lparr>execution_phase := SIMULATION\<rparr>) = Inl e"
    using that by (simp add: simulate_trial_def)
  have all: "run_simulations ops cas st0 (pre @ p # post) = Inl e"
    if "before_simulations ops (comp st0) = ((predicted, nt, reinit, saved), c0)"
      "simulate_all ops nt reinit predicted cas pre (st0\<lparr>comp := c0\<rparr>) = Inr (finished, st1)"
      "run_simulation ops p nt reinit predicted cas st1 = Inl e"
    using simulate_all_append_fail [OF that(2,3), of post] that(1)
    by (simp add: run_simulations_def)
  have exec: "execute ops search_function st2 = Inl e"
    if "get_allocation_policies (allocation_samples st2) = Inr space"
      "run_simulations ops None (st2\<lparr>control_signal_search_space := space\<rparr>)
              (map ArrayPolicy space) = Inl e"
    using that by (simp add: execute_def)
  from trial all exec show ?thesis by blast
qed

text \<open>The small composition after the simulation of the single candidate \<open>0.5\<close>.\<close>

definition toy_after :: "toy controller" where
  "toy_after =
     \<lparr>self_value = Some [[1 / 2]], instance_defaults_value = [[1 / 2]],
      value_is_defaults = True, allocation_samples = [[1 / 2, 1]],
      control_signal_search_space = [],
      comp = \<lparr>internals = \<lparr>signal = 1 / 2, activity = 0, next_id = 1\<rparr>,
              execution_phase = PROCESSING, simulation_results = [[[1 / 2]]]\<rparr>,
      efferent_phases = [PROCESSING]\<rparr>"

lemma toy_one_candidate:
  "run_simulations toy_ops None toy_controller [ArrayPolicy [1 / 2]]
     = Inr ([(ArrayPolicy [1 / 2], [[[1 / 2]]], [SelfReference])], toy_after)"
  by (simp add: run_simulations_def run_simulation_def simulate_trial_def
      apply_control_signal_values_def toy_ops_def toy_controller_def toy_after_def)

text \<open>The same before \<open>after_simulations\<close> has restored the node.\<close>

definition toy_mid :: "toy controller" where
  "toy_mid =
     toy_after\<lparr>comp := \<lparr>internals = \<lparr>signal = 1 / 2, activity = 1 / 2, next_id = 1\<rparr>,
                        execution_phase = PROCESSING, simulation_results = [[[1 / 2]]]\<rparr>\<rparr>"

lemma toy_before:
  "before_simulations toy_ops (comp toy_controller)
     = (([(''origin'', [[1]])], 1, [], [(''node'', [0])]), comp toy_controller)"
  by (simp add: toy_ops_def toy_controller_def)

lemma toy_first_ok:
  "simulate_all toy_ops 1 [] [(''origin'', [[1]])] None [ArrayPolicy [1 / 2]]
       (toy_controller\<lparr>comp := comp toy_controller\<rparr>)
     = Inr ([(ArrayPolicy [1 / 2], [[[1 / 2]]], [SelfReference])], toy_mid)"
  by (simp add: run_simulation_def simulate_trial_def apply_control_signal_values_def
      toy_ops_def toy_controller_def toy_after_def toy_mid_def)

lemma toy_second_raises:
  "run_simulation toy_ops (ArrayPolicy [1]) 1 [] [(''origin'', [[1]])] None toy_mid
     = Inl (AgentError ''allocation above 0.9'')"
  by (simp add: run_simulation_def simulate_trial_def apply_control_signal_values_def
      toy_ops_def toy_after_def toy_mid_def)

lemma toy_space: "get_allocation_policies (allocation_samples toy_controller) = Inr [[1 / 2], [1]]"
  by (simp add: toy_controller_def get_allocation_policies_rows indices_def xy_swap_def
      pick_def upt_rec)

text \<open>
  C1 fails on the code: with the candidates \<open>0.5\<close> and \<open>1.0\<close>, the second of which makes
  the composition raise, \<open>run_simulations\<close> and \<open>_execute\<close> raise the composition's
  exception, although the first candidate alone is simulated without one.
\<close>

theorem failing_candidate_aborts_search:
  "run_simulations toy_ops None toy_controller [ArrayPolicy [1 / 2], ArrayPolicy [1]]
     = Inl (AgentError ''allocation above 0.9'')
   \<and> (\<exists>r. run_simulations toy_ops None toy_controller [ArrayPolicy [1 / 2]] = Inr r)
   \<and> (\<forall>f. execute toy_ops f toy_controller = Inl (AgentError ''allocation above 0.9''))"
proof -
  have a: "run_simulations toy_ops None toy_controller [ArrayPolicy [1 / 2], ArrayPolicy [1]]
      = Inl (AgentError ''allocation above 0.9'')"
    by (simp add: run_simulations_def run_simulation_def simulate_trial_def
        apply_control_signal_values_def toy_ops_def toy_controller_def)
  have b: "run_simulations toy_ops None (toy_controller\<lparr>control_signal_search_space := s\<rparr>)
        [ArrayPolicy [1 / 2], ArrayPolicy [1]]
      = Inl (AgentError ''allocation above 0.9'')" for s
    by (simp add: run_simulations_def run_simulation_def simulate_trial_def
        apply_control_signal_values_def toy_ops_def toy_controller_def)
  have c: "execute toy_ops f toy_controller = Inl (AgentError ''allocation above 0.9'')" for f
    by (simp add: execute_def toy_space b)
  from a c toy_one_candidate show ?thesis by simp
qed

text \<open>The same search with a third candidate after the one that raises.\<close>

theorem simulation_failure_propagates_witness:
  "simulate_trials toy_ops [] [(''origin'', [[1]])] None ''sim-1'' [0]
       (toy_mid\<lparr>comp := (comp toy_mid)\<lparr>internals :=
                   \<lparr>signal = 1, activity = 1 / 2, next_id = 2\<rparr>\<rparr>\<rparr>)
     = Inl (AgentError ''allocation above 0.9'')
   \<and> run_simulations toy_ops None toy_controller
       ([ArrayPolicy [1 / 2]] @ ArrayPolicy [1] # [ArrayPolicy [1 / 4]])
     = Inl (AgentError ''allocation above 0.9'')"
proof -
  let ?st = "toy_mid\<lparr>comp := (comp toy_mid)\<lparr>internals :=
                   \<lparr>signal = 1, activity = 1 / 2, next_id = 2\<rparr>\<rparr>\<rparr>"
  have t: "trial_inputs [(''origin'', [[1]])] 0 = Inr [(''origin'', [1])]" by simp
  have r: "run toy_ops [(''origin'', [1])] [] ''sim-1''
             ((comp ?st)\<lparr>execution_phase := SIMULATION\<rparr>)
      = Inl (AgentError ''allocation above 0.9'')"
    by (simp add: toy_ops_def)
  note th = simulation_failure_propagates
    [of "[(''origin'', [[1]])]" 0 "[(''origin'', [1])]" toy_ops "[]" "''sim-1''" ?st
      "AgentError ''allocation above 0.9''" None "[]" toy_controller 1 "[(''node'', [0])]"
      "comp toy_controller" "[ArrayPolicy [1 / 2]]"
      "[(ArrayPolicy [1 / 2], [[[1 / 2]]], [SelfReference])]" toy_mid "ArrayPolicy [1]"
      "[ArrayPolicy [1 / 4]]"]
  from th t r toy_before toy_first_ok toy_second_raises show ?thesis by blast
qed

subsection \<open>Real state after the simulations\<close>





















section \<open>Grid search over the simulated candidates\<close>

text \<open>
  Modelled from the spec: the controller's default \<open>function\<close>,
  \<open>ControlSignalGridSearch2\<close>, is imported from a module that is not among the sources.
  The spec's GridSearch scores every candidate, tracks the running maximum of the net
  value with ties broken in favour of the candidate seen first, returns the best policy,
  and treats an empty space as the error \<open>EmptySearchSpace\<close>. The net value of a simulated
  candidate is a parameter.
\<close>

fun running_maximum :: "(outcome \<Rightarrow> real) \<Rightarrow> outcome \<Rightarrow> outcome list \<Rightarrow> outcome" where
  "running_maximum net_value best [] = best"
| "running_maximum net_value best (c # cs) =
     running_maximum net_value (if net_value c > net_value best then c else best) cs"

definition grid_search :: "(outcome \<Rightarrow> real) \<Rightarrow> outcome list \<Rightarrow> pyexn + policy" where
  "grid_search net_value simulation_data =
     (case simulation_data of
        [] \<Rightarrow> Inl EmptySearchSpace
      | c # cs \<Rightarrow> Inr (fst (running_maximum net_value c cs)))"

text \<open>
  Modelled from the spec: the same search as the controller's \<open>function\<close>, which
  \<open>_execute\<close> calls with the controller and the simulation data. It reads the simulation
  data only and leaves the controller as it is.
\<close>

definition grid_search_function ::
    "(outcome \<Rightarrow> real) \<Rightarrow> 'c controller \<Rightarrow> outcome list \<Rightarrow> pyexn + (policy \<times> 'c controller)" where
  "grid_search_function net_value self simulation_data =
     (case grid_search net_value simulation_data of
        Inl e \<Rightarrow> Inl e
      | Inr best_policy \<Rightarrow> Inr (best_policy, self))"

text \<open>
  \<open>m\<close> is the first maximum of a list: what comes before it is strictly smaller, what
  comes after it is not larger.
\<close>

definition first_maximum :: "(outcome \<Rightarrow> real) \<Rightarrow> outcome list \<Rightarrow> outcome \<Rightarrow> bool" where
  "first_maximum nv cands m \<longleftrightarrow>
     (\<exists>pre post. cands = pre @ m # post
        \<and> (\<forall>d \<in> set pre. nv d < nv m) \<and> (\<forall>d \<in> set post. nv d \<le> nv m))"

lemma first_maximum_single: "first_maximum nv [b] b"
  unfolding first_maximum_def by (intro exI [of _ "[]"]) simp

lemma first_maximum_ge: "first_maximum nv (c # cs) m \<Longrightarrow> nv c \<le> nv m"
  unfolding first_maximum_def by (auto simp: Cons_eq_append_conv less_imp_le)

lemma first_maximum_push:
  assumes "first_maximum nv (c # cs) m" "nv b < nv c"
  shows "first_maximum nv (b # c # cs) m"
proof -
  from assms(1) obtain pre post where p:
    "c # cs = pre @ m # post" "\<forall>d \<in> set pre. nv d < nv m" "\<forall>d \<in> set post. nv d \<le> nv m"
    unfolding first_maximum_def by (elim exE conjE)
  have "nv b < nv m" using first_maximum_ge [OF assms(1)] assms(2) by simp
  with p(2) have "\<forall>d \<in> set (b # pre). nv d < nv m" by simp
  moreover have "b # c # cs = (b # pre) @ m # post" using p(1) by simp
  ultimately show ?thesis
    unfolding first_maximum_def using p(3) by (intro exI [of _ "b # pre"] exI [of _ post]) simp
qed

lemma first_maximum_skip:
  assumes "first_maximum nv (b # cs) m" "\<not> nv b < nv c"
  shows "first_maximum nv (b # c # cs) m"
proof -
  from assms(1) obtain pre post where p:
    "b # cs = pre @ m # post" "\<forall>d \<in> set pre. nv d < nv m" "\<forall>d \<in> set post. nv d \<le> nv m"
    unfolding first_maximum_def by (elim exE conjE)
  show ?thesis
  proof (cases pre)
    case Nil
    from p(1) have eq: "b # cs = m # post" unfolding Nil append_Nil .
    then have mb: "b = m" by (rule list.inject [THEN iffD1, THEN conjunct1])
    from eq have pc: "cs = post" by (rule list.inject [THEN iffD1, THEN conjunct2])
    have "nv c \<le> nv b" using assms(2) by simp
    then have "\<forall>d \<in> set (c # post). nv d \<le> nv b" using p(3) mb by simp
    then show ?thesis
      unfolding first_maximum_def mb [symmetric] pc
      by (intro exI [of _ "[]"] exI [of _ "c # post"]) simp
  next
    case (Cons q pre')
    from p(1) have eq: "b # cs = q # (pre' @ m # post)" unfolding Cons by simp
    then have qb: "b = q" by (rule list.inject [THEN iffD1, THEN conjunct1])
    from eq have cs: "cs = pre' @ m # post" by (rule list.inject [THEN iffD1, THEN conjunct2])
    have "nv b < nv m" using p(2) Cons qb by simp
    then have "nv c < nv m" using assms(2) by simp
    then have "\<forall>d \<in> set (b # c # pre'). nv d < nv m" using p(2) Cons qb by simp
    then show ?thesis
      unfolding first_maximum_def cs using p(3)
      by (intro exI [of _ "b # c # pre'"] exI [of _ post]) simp
  qed
qed

lemma running_maximum_first: "first_maximum nv (b # cs) (running_maximum nv b cs)"
proof (induction cs arbitrary: b)
  case Nil
  show ?case by (simp add: first_maximum_single)
next
  case (Cons c cs)
  show ?case
  proof (cases "nv b < nv c")
    case True
    then show ?thesis
      using first_maximum_push [OF Cons.IH [of c] True] by simp
  next
    case False
    then show ?thesis
      using first_maximum_skip [OF Cons.IH [of b] False] by simp
  qed
qed

text \<open>
  The policy that the modelled grid search returns is that of the first candidate, in the
  order of the simulation data, whose net value is maximal.
\<close>

lemma grid_search_first_maximum:
  assumes "grid_search net_value simulation_data = Inr best"
  shows "\<exists>c. first_maximum net_value simulation_data c \<and> best = fst c"
proof -
  from assms obtain b cs where sd: "simulation_data = b # cs"
    and best: "best = fst (running_maximum net_value b cs)"
    by (auto simp: grid_search_def split: list.splits)
  from running_maximum_first [of net_value b cs] sd best show ?thesis by blast
qed

text \<open>
  The simulation data list the candidates in the order of the search space, so the
  enumeration order is that of \<open>get_allocation_policies\<close>.
\<close>

lemma simulation_data_in_order:
  assumes "run_simulations ops cas st ps = Inr (simulation_data, st')"
  shows "map fst simulation_data = ps"
proof -
  from assms obtain a b c d e where
    "simulate_all ops a b c cas ps d = Inr (simulation_data, e)"
    by (auto simp: run_simulations_def split: sum.splits prod.splits)
  from simulate_all_frame [OF this] show ?thesis by simp
qed

subsection \<open>A policy that is not applied\<close>

text \<open>
  \<open>run_simulation\<close> applies a policy under \<open>if allocation_policy:\<close>. A row of the search
  space with two or more elements has no truth value, so its simulation raises
  \<open>ValueError\<close>; a row \<open>[0.]\<close> is false, so a zero allocation is not applied and the
  candidate is simulated with whatever allocation was applied last.
\<close>

lemma array_policy_of_two_raises:
  "run_simulations ops cas st (ArrayPolicy (x # y # zs) # ps) = Inl ValueError"
  by (simp add: run_simulations_def run_simulation_def split: prod.splits)

lemma zero_policy_not_applied:
  "run_simulation ops (ArrayPolicy [0]) nt reinit predicted cas st
     = run_simulation ops NoPolicy nt reinit predicted cas st"
  by (simp add: run_simulation_def)

text \<open>
  The small composition with the samples \<open>0\<close> and \<open>0.5\<close>, and a net value of the
  monitored outcome minus half the allocation.
\<close>

definition costed_net_value :: "outcome \<Rightarrow> real" where
  "costed_net_value cand =
     (case cand of (ArrayPolicy [x], [[[a]]], other) \<Rightarrow> a - x / 2 | _ \<Rightarrow> 0)"

definition zero_controller :: "toy controller" where
  "zero_controller = toy_controller\<lparr>allocation_samples := [[0, 1 / 2]]\<rparr>"

text \<open>The controller after a first and after a second call of \<open>_execute\<close>.\<close>

definition zero_after :: "toy controller" where
  "zero_after =
     \<lparr>self_value = Some [[1 / 2]], instance_defaults_value = [[1 / 2]],
      value_is_defaults = True, allocation_samples = [[0, 1 / 2]],
      control_signal_search_space = [[0], [1 / 2]],
      comp = \<lparr>internals = \<lparr>signal = 1 / 2, activity = 0, next_id = 2\<rparr>,
              execution_phase = PROCESSING,
              simulation_results = [[[0]], [[1 / 2]]]\<rparr>,
      efferent_phases = [PROCESSING]\<rparr>"

definition zero_again :: "toy controller" where
  "zero_again =
     zero_after\<lparr>comp := \<lparr>internals = \<lparr>signal = 1 / 2, activity = 0, next_id = 4\<rparr>,
                         execution_phase = PROCESSING,
                         simulation_results = [[[0]], [[1 / 2]], [[1 / 2]], [[1 / 2]]]\<rparr>\<rparr>"

definition first_data :: "outcome list" where
  "first_data =
     [(ArrayPolicy [0], [[[0]]], [SelfReference]),
      (ArrayPolicy [1 / 2], [[[1 / 2]]], [SelfReference])]"

definition second_data :: "outcome list" where
  "second_data =
     [(ArrayPolicy [0], [[[1 / 2]]], [SelfReference]),
      (ArrayPolicy [1 / 2], [[[1 / 2]]], [SelfReference])]"

lemma zero_space:
  "get_allocation_policies (allocation_samples zero_controller) = Inr [[0], [1 / 2]]"
  "get_allocation_policies (allocation_samples zero_after) = Inr [[0], [1 / 2]]"
  by (simp_all add: zero_controller_def zero_after_def get_allocation_policies_rows
      indices_def xy_swap_def pick_def upt_rec)

lemma zero_first_run:
  "run_simulations toy_ops None
       (zero_controller\<lparr>control_signal_search_space := [[0], [1 / 2]]\<rparr>)
       [ArrayPolicy [0], ArrayPolicy [1 / 2]]
     = Inr (first_data, zero_after)"
  by (simp add: run_simulations_def run_simulation_def simulate_trial_def
      apply_control_signal_values_def toy_ops_def toy_controller_def zero_controller_def
      zero_after_def first_data_def)

lemma zero_second_run:
  "run_simulations toy_ops None
       (zero_after\<lparr>control_signal_search_space := [[0], [1 / 2]]\<rparr>)
       [ArrayPolicy [0], ArrayPolicy [1 / 2]]
     = Inr (second_data, zero_again)"
  by (simp add: run_simulations_def run_simulation_def simulate_trial_def
      apply_control_signal_values_def toy_ops_def zero_again_def
      zero_after_def second_data_def)

lemma zero_search:
  "grid_search costed_net_value first_data = Inr (ArrayPolicy [1 / 2])"
  "grid_search costed_net_value second_data = Inr (ArrayPolicy [0])"
  by (simp_all add: grid_search_def costed_net_value_def first_data_def second_data_def)

text \<open>
  C6 fails on the code. Two calls of \<open>_execute\<close> in a row, with the same allocation
  samples \<open>0\<close> and \<open>0.5\<close> and the same deterministic composition, return different best
  policies: \<open>[0.5]\<close>, then \<open>[0]\<close>. The zero allocation is never applied, so in the second
  call the candidate \<open>0\<close> is simulated with the allocation \<open>0.5\<close> that the first call left,
  and its monitored outcome is \<open>0.5\<close> instead of \<open>0\<close>. The net values of the two
  candidates differ in both calls, so no tie is involved.
\<close>

theorem zero_allocation_breaks_determinism:
  "execute toy_ops (grid_search_function costed_net_value) zero_controller
     = Inr (ArrayPolicy [1 / 2], zero_after)
   \<and> execute toy_ops (grid_search_function costed_net_value) zero_after
     = Inr (ArrayPolicy [0], zero_again)
   \<and> allocation_samples zero_after = allocation_samples zero_controller
   \<and> run_simulations toy_ops None
        (zero_controller\<lparr>control_signal_search_space := [[0], [1 / 2]]\<rparr>)
        [ArrayPolicy [0], ArrayPolicy [1 / 2]]
     = Inr ([(ArrayPolicy [0], [[[0]]], [SelfReference]),
             (ArrayPolicy [1 / 2], [[[1 / 2]]], [SelfReference])], zero_after)
   \<and> run_simulations toy_ops None
        (zero_after\<lparr>control_signal_search_space := [[0], [1 / 2]]\<rparr>)
        [ArrayPolicy [0], ArrayPolicy [1 / 2]]
     = Inr ([(ArrayPolicy [0], [[[1 / 2]]], [SelfReference]),
             (ArrayPolicy [1 / 2], [[[1 / 2]]], [SelfReference])], zero_again)
   \<and> costed_net_value (ArrayPolicy [0], [[[0]]], [SelfReference]) = 0
   \<and> costed_net_value (ArrayPolicy [0], [[[1 / 2]]], [SelfReference]) = 1 / 2
   \<and> costed_net_value (ArrayPolicy [1 / 2], [[[1 / 2]]], [SelfReference]) = 1 / 4"
proof -
  have a: "execute toy_ops (grid_search_function costed_net_value) zero_controller
     = Inr (ArrayPolicy [1 / 2], zero_after)"
    by (simp add: execute_def grid_search_function_def zero_space zero_first_run zero_search)
  have b: "execute toy_ops (grid_search_function costed_net_value) zero_after
     = Inr (ArrayPolicy [0], zero_again)"
    by (simp add: execute_def grid_search_function_def zero_space zero_second_run zero_search)
  have c: "allocation_samples zero_after = allocation_samples zero_controller"
    by (simp add: zero_after_def zero_controller_def)
  have d: "costed_net_value (ArrayPolicy [0], [[[0]]], [SelfReference]) = 0"
    "costed_net_value (ArrayPolicy [0], [[[1 / 2]]], [SelfReference]) = 1 / 2"
    "costed_net_value (ArrayPolicy [1 / 2], [[[1 / 2]]], [SelfReference]) = 1 / 4"
    by (simp_all add: costed_net_value_def)
  from a b c d zero_first_run zero_second_run show ?thesis
    by (simp add: first_data_def second_data_def)
qed

end
